theory Spec2Isabelle
  imports Complex_Main "HOL-Library.AList" "HOL-Library.Char_ord" "HOL-Library.List_Lexorder"
begin

section \<open>JSON values as Python sees them\<close>

text \<open>
  \<open>json.load\<close> yields \<open>None\<close>, \<open>bool\<close>, \<open>int\<close>, \<open>float\<close>, \<open>str\<close>, \<open>list\<close> and
  \<open>dict\<close> objects. A dict is an association list in insertion order (keys are strings).
  A float is its exact rational value, or one of the three special values that
  \<open>json.load\<close> accepts.
\<close>

datatype pyfloat = Finite rat | PosInf | NegInf | NaN

datatype json =
    JNull
  | JBool bool
  | JInt int
  | JFloat pyfloat
  | JStr string
  | JList "json list"
  | JDict "(string \<times> json) list"

datatype pytype = TNone | TBool | TInt | TFloat | TStr | TList | TDict

text \<open>\<open>type(x)\<close>: the exact class, so a bool is not an int here.\<close>

fun type_of :: "json \<Rightarrow> pytype" where
  "type_of JNull = TNone"
| "type_of (JBool _) = TBool"
| "type_of (JInt _) = TInt"
| "type_of (JFloat _) = TFloat"
| "type_of (JStr _) = TStr"
| "type_of (JList _) = TList"
| "type_of (JDict _) = TDict"

text \<open>The exceptions the module can meet. \<open>OSError\<close> stands for its subclasses
  (\<open>PermissionError\<close>, \<open>FileNotFoundError\<close>); \<open>ValueError\<close> for \<open>JSONDecodeError\<close> too.\<close>

datatype exn = KeyError | TypeError | ValueError | AttributeError | OverflowError | OSError

text \<open>\<open>obj[key]\<close> with a string key: only a dict can answer; a list, a string, a number,
  a bool and \<open>None\<close> raise \<open>TypeError\<close>.\<close>

fun getitem :: "json \<Rightarrow> string \<Rightarrow> exn + json" where
  "getitem (JDict kvs) k = (case map_of kvs k of None \<Rightarrow> Inl KeyError | Some v \<Rightarrow> Inr v)"
| "getitem _ k = Inl TypeError"

text \<open>\<open>obj[key] = v\<close> with a string key: a dict replaces the value in place or appends the
  new key; everything else raises \<open>TypeError\<close>. The dict is mutated in place in Python;
  here the updated object is returned.\<close>

fun setitem :: "json \<Rightarrow> string \<Rightarrow> json \<Rightarrow> exn + json" where
  "setitem (JDict kvs) k v = Inr (JDict (AList.update k v kvs))"
| "setitem _ k v = Inl TypeError"

text \<open>\<open>obj[g][k]\<close> and \<open>obj[g][k] = v\<close>: the inner object is reached through the outer one,
  so the outer object sees the assignment.\<close>

definition getitem2 :: "json \<Rightarrow> string \<Rightarrow> string \<Rightarrow> exn + json" where
  "getitem2 obj g k = (case getitem obj g of Inl e \<Rightarrow> Inl e | Inr grp \<Rightarrow> getitem grp k)"

definition setitem2 :: "json \<Rightarrow> string \<Rightarrow> string \<Rightarrow> json \<Rightarrow> exn + json" where
  "setitem2 obj g k v =
     (case getitem obj g of
        Inl e \<Rightarrow> Inl e
      | Inr grp \<Rightarrow> (case setitem grp k v of Inl e \<Rightarrow> Inl e | Inr grp' \<Rightarrow> setitem obj g grp'))"

text \<open>What \<open>json.load\<close> returns for the text that
  \<open>json.dumps(x, sort_keys=True, indent=4)\<close> wrote: the same value, every dict with its
  keys in ascending order (strings compare by code point, which is the byte order of
  UTF-8).\<close>

fun sort_keys :: "json \<Rightarrow> json"
  and sort_keys_list :: "json list \<Rightarrow> json list"
  and sort_keys_items :: "(string \<times> json) list \<Rightarrow> (string \<times> json) list" where
  "sort_keys (JList xs) = JList (sort_keys_list xs)"
| "sort_keys (JDict kvs) = JDict (sort_key fst (sort_keys_items kvs))"
| "sort_keys JNull = JNull"
| "sort_keys (JBool b) = JBool b"
| "sort_keys (JInt i) = JInt i"
| "sort_keys (JFloat f) = JFloat f"
| "sort_keys (JStr s) = JStr s"
| "sort_keys_list [] = []"
| "sort_keys_list (x # xs) = sort_keys x # sort_keys_list xs"
| "sort_keys_items [] = []"
| "sort_keys_items ((k, v) # kvs) = (k, sort_keys v) # sort_keys_items kvs"

section \<open>The file system and the diagnostic output\<close>

text \<open>
  A file's bytes are kept as what \<open>json.load\<close> makes of them: \<open>Parsed j\<close> is a JSON text
  that decodes to \<open>j\<close>, \<open>Unparsable t\<close> is the text \<open>t\<close> that \<open>json.load\<close> rejects (the
  empty file that \<open>open(p, "w").close()\<close> leaves is \<open>Unparsable []\<close>).
\<close>

datatype content = Unparsable string | Parsed json

record fileobj =
  content :: content
  readable :: bool
  writable :: bool

text \<open>The levels of \<open>common.Debugging\<close> that the module passes to \<open>dbg.stdout\<close>;
  \<open>Plain\<close> is a call without a level.\<close>

datatype level = Error | Success | Warning | Action | Plain

text \<open>
  \<open>files\<close> maps a path to the file there; \<open>dir_writable p\<close> says that the directory
  holding \<open>p\<close> exists and lets the process create, rename and remove entries; \<open>out\<close> is
  the list of \<open>dbg.stdout\<close> calls so far.
\<close>

record fs =
  files :: "string \<rightharpoonup> fileobj"
  dir_writable :: "string \<Rightarrow> bool"
  out :: "level list"

text \<open>A statement of the module: it runs on a state, ends with a value or an exception,
  and leaves a state in both cases.\<close>

type_synonym 'a io = "fs \<Rightarrow> (exn + 'a) \<times> fs"

definition ret :: "'a \<Rightarrow> 'a io" where
  "ret x s = (Inr x, s)"

definition raise :: "exn \<Rightarrow> 'a io" where
  "raise e s = (Inl e, s)"

definition lift :: "exn + 'a \<Rightarrow> 'a io" where
  "lift x s = (x, s)"

definition bind :: "'a io \<Rightarrow> ('a \<Rightarrow> 'b io) \<Rightarrow> 'b io" where
  "bind m f s = (case m s of (Inl e, s') \<Rightarrow> (Inl e, s') | (Inr x, s') \<Rightarrow> f x s')"

text \<open>\<open>try: m  except <classes>: h\<close>: the handler runs on the state the body left.\<close>

definition try_except :: "'a io \<Rightarrow> (exn \<Rightarrow> bool) \<Rightarrow> 'a io \<Rightarrow> 'a io" where
  "try_except m catches h s =
     (case m s of
        (Inl e, s') \<Rightarrow> if catches e then h s' else (Inl e, s')
      | (Inr x, s') \<Rightarrow> (Inr x, s'))"

abbreviation Exception :: "exn \<Rightarrow> bool" where
  "Exception \<equiv> (\<lambda>e. True)"

abbreviation only :: "exn \<Rightarrow> exn \<Rightarrow> bool" where
  "only c \<equiv> (\<lambda>e. e = c)"

text \<open>Modelled from the spec: \<open>common.Debugging.stdout\<close> is not in the sources; the spec
  has it as a diagnostic sink on which no behaviour depends. It records the level of the
  message and never raises.\<close>

definition stdout :: "level \<Rightarrow> unit io" where
  "stdout l s = (Inr (), s\<lparr>out := out s @ [l]\<rparr>)"

definition path_exists :: "fs \<Rightarrow> string \<Rightarrow> bool" where
  "path_exists s p = (files s p \<noteq> None)"

text \<open>\<open>os.access(p, os.W_OK)\<close>.\<close>

definition access_w :: "fs \<Rightarrow> string \<Rightarrow> bool" where
  "access_w s p = (case files s p of None \<Rightarrow> False | Some f \<Rightarrow> writable f)"

text \<open>\<open>open(p)\<close> for reading, then \<open>json.load\<close>.\<close>

definition open_read :: "string \<Rightarrow> content io" where
  "open_read p s =
     (case files s p of
        None \<Rightarrow> (Inl OSError, s)
      | Some f \<Rightarrow> if readable f then (Inr (content f), s) else (Inl OSError, s))"

definition json_load :: "content \<Rightarrow> json io" where
  "json_load c = (case c of Unparsable t \<Rightarrow> raise ValueError | Parsed j \<Rightarrow> ret j)"

text \<open>\<open>open(p, "w").close()\<close>: truncates a writable file, creates an absent one where
  the directory allows it, raises otherwise.\<close>

definition open_w_close :: "string \<Rightarrow> unit io" where
  "open_w_close p s =
     (case files s p of
        Some f \<Rightarrow>
          if writable f then (Inr (), s\<lparr>files := (files s)(p \<mapsto> f\<lparr>content := Unparsable []\<rparr>)\<rparr>)
          else (Inl OSError, s)
      | None \<Rightarrow>
          if dir_writable s p
          then (Inr (), s\<lparr>files := (files s)(p \<mapsto>
                  \<lparr>content = Unparsable [], readable = True, writable = True\<rparr>)\<rparr>)
          else (Inl OSError, s))"

text \<open>\<open>f = open(p, "w+"); f.write(json.dumps(x, sort_keys=True, indent=4)); f.close()\<close>.
  The mode \<open>"w+"\<close> opens for reading and writing, so an existing file must allow both.\<close>

definition write_json :: "string \<Rightarrow> json \<Rightarrow> unit io" where
  "write_json p x s =
     (case files s p of
        Some f \<Rightarrow>
          if readable f \<and> writable f
          then (Inr (), s\<lparr>files := (files s)(p \<mapsto> f\<lparr>content := Parsed (sort_keys x)\<rparr>)\<rparr>)
          else (Inl OSError, s)
      | None \<Rightarrow>
          if dir_writable s p
          then (Inr (), s\<lparr>files := (files s)(p \<mapsto>
                  \<lparr>content = Parsed (sort_keys x), readable = True, writable = True\<rparr>)\<rparr>)
          else (Inl OSError, s))"

text \<open>\<open>os.rename(a, b)\<close>: needs the source and both directories; replaces \<open>b\<close>.\<close>

definition os_rename :: "string \<Rightarrow> string \<Rightarrow> unit io" where
  "os_rename a b s =
     (case files s a of
        None \<Rightarrow> (Inl OSError, s)
      | Some f \<Rightarrow>
          if dir_writable s a \<and> dir_writable s b
          then (Inr (), s\<lparr>files := ((files s)(a := None))(b \<mapsto> f)\<rparr>)
          else (Inl OSError, s))"

definition os_remove :: "string \<Rightarrow> unit io" where
  "os_remove p s =
     (case files s p of
        None \<Rightarrow> (Inl OSError, s)
      | Some f \<Rightarrow>
          if dir_writable s p then (Inr (), s\<lparr>files := (files s)(p := None)\<rparr>)
          else (Inl OSError, s))"

section \<open>The module\<close>

definition version :: int where
  "version = 7"

text \<open>
  \<open>class Paths\<close>: \<open>r\<close> is \<open>Paths.root\<close>, which the class computes from the home directory
  and the environment; it ends in \<open>polychromatic\<close>, so \<open>os.path.join(root, name)\<close> is
  \<open>root + "/" + name\<close>.
\<close>

definition preferences :: "string \<Rightarrow> string" where
  "preferences r = r @ ''/preferences.json''"

definition colours :: "string \<Rightarrow> string" where
  "colours r = r @ ''/colours.json''"

definition old_devicestate :: "string \<Rightarrow> string" where
  "old_devicestate r = r @ ''/devicestate.json''"

text \<open>\<open>save_file\<close>. The caller's \<open>newdata\<close> object is mutated for the preferences path, so
  the object is returned with the result.\<close>

definition save_file :: "string \<Rightarrow> string \<Rightarrow> json \<Rightarrow> (bool \<times> json) io" where
  "save_file r filepath newdata =
     bind (if filepath = preferences r
           then lift (setitem newdata ''config_version'' (JInt version))
           else ret newdata)
       (\<lambda>newdata.
     bind (\<lambda>s. if \<not> path_exists s filepath then open_w_close filepath s else ret () s)
       (\<lambda>_ s.
          if access_w s filepath
          then bind (write_json filepath newdata) (\<lambda>_. ret (True, newdata)) s
          else ret (False, newdata) s))"

definition init_config :: "string \<Rightarrow> string \<Rightarrow> unit io" where
  "init_config r filepath =
     try_except
       (bind (\<lambda>s. if path_exists s filepath
                   then bind (stdout Error) (\<lambda>_. os_rename filepath (filepath @ ''.bak'')) s
                   else ret () s)
          (\<lambda>_. bind (save_file r filepath (JDict [])) (\<lambda>_. stdout Success)))
       Exception
       (bind (stdout Error) (\<lambda>_. stdout Error))"

text \<open>The inner function \<open>_validate\<close> of \<open>load_file\<close>; \<open>data\<close> is the variable of the
  enclosing call, passed in and returned.\<close>

definition validate :: "string \<Rightarrow> string \<Rightarrow> string \<Rightarrow> pytype \<Rightarrow> json \<Rightarrow> json \<Rightarrow> json io" where
  "validate r group' item data_type default_value data =
     bind (try_except (bind (lift (getitem data group')) (\<lambda>_. ret data))
             (only KeyError)
             (lift (setitem data group' (JDict []))))
       (\<lambda>data.
     bind (try_except (bind (lift (getitem2 data group' item)) (\<lambda>_. ret data))
             (only KeyError)
             (bind (lift (setitem2 data group' item default_value))
                (\<lambda>data. bind (save_file r (preferences r) data) (\<lambda>(ok, data). ret data))))
       (\<lambda>data.
     bind (lift (getitem2 data group' item))
       (\<lambda>v. if type_of v \<noteq> data_type
            then bind (lift (setitem2 data group' item default_value))
                   (\<lambda>data. bind (save_file r (preferences r) data) (\<lambda>(ok, data). ret data))
            else ret data)))"

text \<open>The six \<open>_validate\<close> calls of \<open>load_file\<close>, in order.\<close>

definition validate_all :: "string \<Rightarrow> json \<Rightarrow> json io" where
  "validate_all r data =
     bind (validate r ''colours'' ''primary'' TStr (JStr ''#00FF00'') data) (\<lambda>data.
     bind (validate r ''colours'' ''secondary'' TStr (JStr ''#FF0000'') data) (\<lambda>data.
     bind (validate r ''effects'' ''live_preview'' TBool (JBool True) data) (\<lambda>data.
     bind (validate r ''general'' ''landing_tab'' TStr (JStr ''devices'') data) (\<lambda>data.
     bind (validate r ''tray'' ''force_legacy_gtk_status'' TBool (JBool False) data) (\<lambda>data.
     validate r ''tray'' ''icon'' TStr (JStr ''ui/img/tray/light/polychromatic.svg'') data)))))"

text \<open>\<open>load_file\<close>: lines 64 to 75 read the file or make a fresh one, lines 94 to 102
  validate the preferences.\<close>

definition read_or_init :: "string \<Rightarrow> string \<Rightarrow> json io" where
  "read_or_init r filepath s =
     (if path_exists s filepath
      then try_except (bind (open_read filepath) json_load)
             Exception
             (bind (stdout Error) (\<lambda>_. bind (stdout Error) (\<lambda>_.
                bind (init_config r filepath) (\<lambda>_. ret (JDict []))))) s
      else bind (init_config r filepath) (\<lambda>_. ret (JDict [])) s)"

definition load_file :: "string \<Rightarrow> string \<Rightarrow> json io" where
  "load_file r filepath =
     bind (read_or_init r filepath)
       (\<lambda>data. if filepath = preferences r then validate_all r data else ret data)"

text \<open>\<open>set\<close>, \<open>get\<close> and \<open>exists\<close>; \<open>filepath=None\<close> is the preferences path.\<close>

definition set' :: "string \<Rightarrow> string \<Rightarrow> string \<Rightarrow> json \<Rightarrow> string option \<Rightarrow> unit io" where
  "set' r group' item val filepath =
     (let filepath = (case filepath of None \<Rightarrow> preferences r | Some p \<Rightarrow> p) in
      bind (load_file r filepath) (\<lambda>data.
      let val = (if val = JStr ''true'' then JBool True else val);
          val = (if val = JStr ''false'' then JBool False else val) in
      bind (try_except (bind (lift (getitem data group')) (\<lambda>_. ret data))
              Exception
              (lift (setitem data group' (JDict []))))
        (\<lambda>data.
           try_except
             (bind (lift (setitem2 data group' item val)) (\<lambda>data.
              bind (save_file r filepath data) (\<lambda>_. ret ())))
             Exception
             (stdout Error))))"

definition get :: "string \<Rightarrow> string \<Rightarrow> string \<Rightarrow> json \<Rightarrow> string option \<Rightarrow> json io" where
  "get r group' item default_value filepath =
     (let filepath = (case filepath of None \<Rightarrow> preferences r | Some p \<Rightarrow> p) in
      bind (load_file r filepath) (\<lambda>data. lift (getitem2 data group' item)))"

definition exists :: "string \<Rightarrow> string \<Rightarrow> string \<Rightarrow> string option \<Rightarrow> bool io" where
  "exists r group' item filepath =
     (let filepath = (case filepath of None \<Rightarrow> preferences r | Some p \<Rightarrow> p) in
      bind (load_file r filepath) (\<lambda>data.
      try_except (bind (lift (getitem2 data group' item)) (\<lambda>_. ret True))
        Exception
        (ret False)))"

section \<open>Python built-ins used by the migration\<close>

text \<open>\<open>int(x)\<close>: a float is truncated towards zero. For a string, \<open>int\<close> parses by the
  rules of the interpreter (Unicode white space and digits among them), which are not
  written out here: the parse is the parameter \<open>int_of_str\<close>.\<close>

fun py_int :: "(string \<Rightarrow> exn + int) \<Rightarrow> json \<Rightarrow> exn + int" where
  "py_int int_of_str (JInt i) = Inr i"
| "py_int int_of_str (JBool b) = Inr (if b then 1 else 0)"
| "py_int int_of_str (JFloat f) =
     (case f of
        Finite q \<Rightarrow> Inr (if 0 \<le> q then \<lfloor>q\<rfloor> else \<lceil>q\<rceil>)
      | NaN \<Rightarrow> Inl ValueError
      | _ \<Rightarrow> Inl OverflowError)"
| "py_int int_of_str (JStr s) = int_of_str s"
| "py_int int_of_str _ = Inl TypeError"

text \<open>\<open>x == y\<close>: numbers (bools among them) compare by value, dicts regardless of the
  order of their keys.\<close>

fun num_val :: "json \<Rightarrow> pyfloat option" where
  "num_val (JBool b) = Some (Finite (if b then 1 else 0))"
| "num_val (JInt i) = Some (Finite (of_int i))"
| "num_val (JFloat f) = Some f"
| "num_val _ = None"

definition num_eq :: "json \<Rightarrow> json \<Rightarrow> bool" where
  "num_eq x y =
     (case (num_val x, num_val y) of
        (Some a, Some b) \<Rightarrow> a \<noteq> NaN \<and> a = b
      | _ \<Rightarrow> False)"

fun py_eq :: "json \<Rightarrow> json \<Rightarrow> bool"
  and py_eq_list :: "json list \<Rightarrow> json list \<Rightarrow> bool"
  and py_eq_items :: "(string \<times> json) list \<Rightarrow> (string \<times> json) list \<Rightarrow> bool" where
  "py_eq (JList xs) y = (case y of JList ys \<Rightarrow> py_eq_list xs ys | _ \<Rightarrow> False)"
| "py_eq (JDict kvs) y =
     (case y of JDict kvs' \<Rightarrow> length kvs = length kvs' \<and> py_eq_items kvs kvs' | _ \<Rightarrow> False)"
| "py_eq (JStr s) y = (y = JStr s)"
| "py_eq JNull y = (y = JNull)"
| "py_eq (JBool b) y = num_eq (JBool b) y"
| "py_eq (JInt i) y = num_eq (JInt i) y"
| "py_eq (JFloat f) y = num_eq (JFloat f) y"
| "py_eq_list [] ys = (ys = [])"
| "py_eq_list (x # xs) ys = (case ys of [] \<Rightarrow> False | y # ys' \<Rightarrow> py_eq x y \<and> py_eq_list xs ys')"
| "py_eq_items [] kvs' = True"
| "py_eq_items ((k, v) # kvs) kvs' =
     (case map_of kvs' k of None \<Rightarrow> False | Some v' \<Rightarrow> py_eq v v' \<and> py_eq_items kvs kvs')"

text \<open>\<open>list(d.keys())\<close>: only a dict has \<open>keys\<close>.\<close>

fun dict_keys :: "json \<Rightarrow> exn + string list" where
  "dict_keys (JDict kvs) = Inr (map fst kvs)"
| "dict_keys _ = Inl AttributeError"

section \<open>The migration\<close>

text \<open>Lines 222 to 224 of \<open>upgrade_old_pref\<close>, the body of its first \<open>try\<close>.\<close>

definition read_config_version :: "string \<Rightarrow> (string \<Rightarrow> exn + int) \<Rightarrow> int io" where
  "read_config_version r int_of_str =
     bind (open_read (preferences r)) (\<lambda>c.
     bind (json_load c) (\<lambda>data.
     bind (lift (getitem data ''config_version'')) (\<lambda>v. lift (py_int int_of_str v))))"

text \<open>The body of the loop over the three editor keys (lines 249 to 257); an exception
  leaves \<open>data\<close> as it was.\<close>

definition fix_editor_key :: "json \<Rightarrow> string \<Rightarrow> json" where
  "fix_editor_key data key =
     (case getitem2 data ''editor'' key of
        Inl e \<Rightarrow> data
      | Inr val \<Rightarrow>
          if type_of val = TStr
          then (case setitem2 data ''editor'' key (JBool (val = JStr ''true'' \<or> val = JStr ''True'')) of
                  Inl e \<Rightarrow> data
                | Inr data' \<Rightarrow> data')
          else data)"

text \<open>The step for versions below 5 (lines 245 to 259).\<close>

definition step_lt5 :: "string \<Rightarrow> unit io" where
  "step_lt5 r =
     bind (load_file r (preferences r)) (\<lambda>data.
     bind (save_file r (preferences r)
             (foldl fix_editor_key data [''activate_on_save'', ''live_switch'', ''live_preview'']))
       (\<lambda>_. ret ()))"

text \<open>The step for version 6 (lines 262 to 268): the loop that removes the files.\<close>

fun remove_existing :: "string list \<Rightarrow> unit io" where
  "remove_existing [] = ret ()"
| "remove_existing (filepath # rest) =
     bind (\<lambda>s. if path_exists s filepath then os_remove filepath s else ret () s)
       (\<lambda>_. remove_existing rest)"

definition step_eq6 :: "string \<Rightarrow> unit io" where
  "step_eq6 r =
     bind (stdout Warning) (\<lambda>_.
     remove_existing [preferences r, colours r, old_devicestate r])"

text \<open>\<open>mapping[k]\<close> for the table of built-in icons (lines 285 to 292): a list or a dict
  is not hashable.\<close>

definition builtin_icon :: "json \<Rightarrow> exn + json" where
  "builtin_icon k =
     (case k of
        JStr s \<Rightarrow>
          (case map_of
                  [(''0'', ''ui/img/tray/light/humanity.svg''),
                   (''1'', ''ui/img/tray/dark/humanity.svg''),
                   (''2'', ''ui/img/tray/animated/chroma.gif''),
                   (''3'', ''ui/img/tray/light/breeze.svg''),
                   (''4'', ''ui/img/tray/dark/breeze.svg'')] s of
             None \<Rightarrow> Inl KeyError
           | Some p \<Rightarrow> Inr (JStr p))
      | JList _ \<Rightarrow> Inl TypeError
      | JDict _ \<Rightarrow> Inl TypeError
      | _ \<Rightarrow> Inl KeyError)"

text \<open>\<open>except KeyError: pass\<close> around a computation of \<open>new_tray_value\<close>, which then
  keeps its initial value, the empty string.\<close>

definition discard_KeyError :: "exn + json \<Rightarrow> exn + json" where
  "discard_KeyError x = (case x of Inl e \<Rightarrow> if e = KeyError then Inr (JStr []) else Inl e | Inr v \<Rightarrow> Inr v)"

text \<open>Lines 276 to 298. \<open>get_path_from_gtk_icon_name\<close> is a function of \<open>common\<close>, which
  is not in the sources: it is a parameter.\<close>

definition new_tray_value :: "(json \<Rightarrow> exn + json) \<Rightarrow> json \<Rightarrow> exn + json" where
  "new_tray_value get_path_from_gtk_icon_name old_data =
     discard_KeyError
       (case getitem2 old_data ''tray_icon'' ''type'' of
          Inl e \<Rightarrow> Inl e
        | Inr old_type \<Rightarrow>
            if old_type = JStr ''gtk''
            then (case getitem2 old_data ''tray_icon'' ''value'' of
                    Inl e \<Rightarrow> Inl e
                  | Inr v \<Rightarrow> get_path_from_gtk_icon_name v)
            else if old_type = JStr ''custom''
            then getitem2 old_data ''tray_icon'' ''value''
            else if old_type = JStr ''builtin''
            then discard_KeyError
                   (case getitem2 old_data ''tray_icon'' ''value'' of
                      Inl e \<Rightarrow> Inl e
                    | Inr v \<Rightarrow> builtin_icon v)
            else Inr (JStr []))"

text \<open>Lines 300 to 303.\<close>

definition old_live_preview :: "json \<Rightarrow> exn + json" where
  "old_live_preview old_data =
     (case getitem2 old_data ''editor'' ''live_preview'' of
        Inl e \<Rightarrow> if e = KeyError then Inr (JBool False) else Inl e
      | Inr v \<Rightarrow> Inr v)"

text \<open>Lines 305 to 317.\<close>

definition new_data :: "json \<Rightarrow> json \<Rightarrow> json" where
  "new_data live_preview tray_value =
     JDict [(''colours'', JDict [(''primary'', JStr ''#00FF00''), (''secondary'', JStr ''#00FFFF'')]),
            (''effects'', JDict [(''live_preview'', live_preview)]),
            (''tray'', JDict [(''force_legacy_gtk_status'', JBool False), (''icon'', tray_value)])]"

definition old_colour_json :: json where
  "old_colour_json =
     JDict [(''1'', JDict [(''name'', JStr ''White''), (''col'', JList [JInt 255, JInt 255, JInt 255])]),
            (''2'', JDict [(''name'', JStr ''Red''), (''col'', JList [JInt 255, JInt 0, JInt 0])]),
            (''3'', JDict [(''name'', JStr ''Orange''), (''col'', JList [JInt 255, JInt 165, JInt 0])]),
            (''4'', JDict [(''name'', JStr ''Yellow''), (''col'', JList [JInt 255, JInt 255, JInt 0])]),
            (''5'', JDict [(''name'', JStr ''Signature Green''), (''col'', JList [JInt 0, JInt 255, JInt 0])]),
            (''6'', JDict [(''name'', JStr ''Aqua''), (''col'', JList [JInt 0, JInt 255, JInt 255])]),
            (''7'', JDict [(''name'', JStr ''Blue''), (''col'', JList [JInt 0, JInt 0, JInt 255])]),
            (''8'', JDict [(''name'', JStr ''Purple''), (''col'', JList [JInt 128, JInt 0, JInt 128])]),
            (''9'', JDict [(''name'', JStr ''Pink''), (''col'', JList [JInt 255, JInt 0, JInt 255])])]"

text \<open>The loop over \<open>old_ids\<close> (lines 348 to 351); \<open>new_colours\<close> is the accumulator.
  \<open>rgb_to_hex\<close> is a function of \<open>common\<close>: a parameter.\<close>

fun convert_colours :: "(json \<Rightarrow> exn + json) \<Rightarrow> json \<Rightarrow> string list \<Rightarrow> json list \<Rightarrow> exn + json list" where
  "convert_colours rgb_to_hex old_colours [] new_colours = Inr new_colours"
| "convert_colours rgb_to_hex old_colours (uuid # old_ids) new_colours =
     (case getitem2 old_colours uuid ''name'' of
        Inl e \<Rightarrow> Inl e
      | Inr new_name \<Rightarrow>
          (case getitem2 old_colours uuid ''col'' of
             Inl e \<Rightarrow> Inl e
           | Inr col \<Rightarrow>
               (case rgb_to_hex col of
                  Inl e \<Rightarrow> Inl e
                | Inr new_hex \<Rightarrow>
                    convert_colours rgb_to_hex old_colours old_ids
                      (new_colours @ [JDict [(''name'', new_name), (''hex'', new_hex)]]))))"

text \<open>Lines 327 to 353: the colours part of the step for versions below 7.\<close>

definition migrate_colours :: "string \<Rightarrow> (json \<Rightarrow> exn + json) \<Rightarrow> unit io" where
  "migrate_colours r rgb_to_hex =
     bind (load_file r (colours r)) (\<lambda>old_colours.
       if py_eq old_colours old_colour_json then os_remove (colours r)
       else if type_of old_colours \<noteq> TList
       then bind (lift (dict_keys old_colours)) (\<lambda>old_ids.
            bind (lift (convert_colours rgb_to_hex old_colours (sort old_ids) [])) (\<lambda>new_colours.
            bind (save_file r (colours r) (JList new_colours)) (\<lambda>_. ret ())))
       else ret ())"

text \<open>The step for versions below 7 (lines 271 to 353).\<close>

definition step_lt7 :: "string \<Rightarrow> (json \<Rightarrow> exn + json) \<Rightarrow> (json \<Rightarrow> exn + json) \<Rightarrow> unit io" where
  "step_lt7 r get_path_from_gtk_icon_name rgb_to_hex =
     bind (load_file r (preferences r)) (\<lambda>old_data.
     bind (lift (new_tray_value get_path_from_gtk_icon_name old_data)) (\<lambda>tray_value.
     bind (lift (old_live_preview old_data)) (\<lambda>live_preview.
     bind (os_remove (preferences r)) (\<lambda>_.
     bind (save_file r (preferences r) (new_data live_preview tray_value)) (\<lambda>_.
     bind (\<lambda>s. if path_exists s (old_devicestate r) then os_remove (old_devicestate r) s else ret () s) (\<lambda>_.
     migrate_colours r rgb_to_hex))))))"

text \<open>Lines 357 to 362.\<close>

definition stamp_version :: "string \<Rightarrow> unit io" where
  "stamp_version r =
     bind (load_file r (preferences r)) (\<lambda>data.
     bind (lift (setitem data ''config_version'' (JInt version))) (\<lambda>data.
     bind (save_file r (preferences r) data) (\<lambda>_. stdout Success)))"

text \<open>\<open>upgrade_old_pref\<close>; its parameters are the root, the parse of \<open>int\<close> on strings and
  the two functions of \<open>common\<close>.\<close>

definition upgrade_old_pref ::
  "string \<Rightarrow> (string \<Rightarrow> exn + int) \<Rightarrow> (json \<Rightarrow> exn + json) \<Rightarrow> (json \<Rightarrow> exn + json) \<Rightarrow> unit io" where
  "upgrade_old_pref r int_of_str get_path_from_gtk_icon_name rgb_to_hex s =
     (case read_config_version r int_of_str s of
        (Inl e, s') \<Rightarrow> (Inr (), s')
      | (Inr config_version, s') \<Rightarrow>
          if version = config_version then (Inr (), s')
          else if config_version > version
          then bind (stdout Error) (\<lambda>_. bind (stdout Error) (\<lambda>_. bind (stdout Error) (\<lambda>_.
               bind (stdout Error) (\<lambda>_. stdout Plain)))) s'
          else bind (stdout Action) (\<lambda>_.
               bind (if config_version < 5 then step_lt5 r else ret ()) (\<lambda>_.
               if config_version = 6 then step_eq6 r
               else bind (if config_version < 7
                          then step_lt7 r get_path_from_gtk_icon_name rgb_to_hex
                          else ret ())
                      (\<lambda>_. stamp_version r))) s')"

section \<open>Notions for the statements\<close>

text \<open>
  Total counterparts of the assignments on dicts (\<open>put\<close>, \<open>put2\<close>), what a run of
  \<open>_validate\<close> that returns leaves in \<open>data\<close> (\<open>validated\<close>), and the state that a
  \<open>save_file\<close> that returns leaves (\<open>written\<close>). The lemmas below relate them to the
  functions of the module.
\<close>

definition put :: "string \<Rightarrow> json \<Rightarrow> json \<Rightarrow> json" where
  "put k v d = (case d of JDict kvs \<Rightarrow> JDict (AList.update k v kvs) | _ \<Rightarrow> d)"

definition put2 :: "string \<Rightarrow> string \<Rightarrow> json \<Rightarrow> json \<Rightarrow> json" where
  "put2 g k v d = (case getitem d g of Inr grp \<Rightarrow> put g (put k v grp) d | Inl e \<Rightarrow> d)"

text \<open>\<open>entry_ok d g k t\<close>: the document has \<open>d[g][k]\<close> and its type is \<open>t\<close>, so
  \<open>_validate\<close> leaves it alone. \<open>mapping_or_absent d g\<close>: the group \<open>g\<close> is a dict or is not
  there, so \<open>_validate\<close> can repair it.\<close>

definition entry_ok :: "json \<Rightarrow> string \<Rightarrow> string \<Rightarrow> pytype \<Rightarrow> bool" where
  "entry_ok d g k t = (case getitem2 d g k of Inl e \<Rightarrow> False | Inr v \<Rightarrow> type_of v = t)"

definition mapping_or_absent :: "json \<Rightarrow> string \<Rightarrow> bool" where
  "mapping_or_absent d g = (case getitem d g of Inl e \<Rightarrow> e = KeyError | Inr grp \<Rightarrow> type_of grp = TDict)"

definition validated :: "string \<Rightarrow> string \<Rightarrow> pytype \<Rightarrow> json \<Rightarrow> json \<Rightarrow> json" where
  "validated g k t dv d =
     (if entry_ok d g k t then d
      else put ''config_version'' (JInt 7)
             (put2 g k dv (case getitem d g of Inl e \<Rightarrow> put g (JDict []) d | Inr grp \<Rightarrow> d)))"

definition written :: "string \<Rightarrow> json \<Rightarrow> fs \<Rightarrow> fs" where
  "written p d s =
     (case files s p of
        Some f \<Rightarrow> if writable f then s\<lparr>files := (files s)(p \<mapsto> f\<lparr>content := Parsed (sort_keys d)\<rparr>)\<rparr> else s
      | None \<Rightarrow> s\<lparr>files := (files s)(p \<mapsto> \<lparr>content = Parsed (sort_keys d), readable = True, writable = True\<rparr>)\<rparr>)"

text \<open>\<open>save_file\<close> raises nothing on a path that can be created, or that holds a file
  which, if writable, is readable too.\<close>

definition can_save :: "fs \<Rightarrow> string \<Rightarrow> bool" where
  "can_save s p =
     (case files s p of None \<Rightarrow> dir_writable s p | Some f \<Rightarrow> writable f \<longrightarrow> readable f)"

text \<open>The arguments of the six \<open>_validate\<close> calls of \<open>load_file\<close> (lines 95 to 100), and
  the calls as a loop over them; \<open>validate_all\<close> is \<open>validate_list\<close> on \<open>default_entries\<close>
  (lemma \<open>validate_all_list\<close>).\<close>

type_synonym entry = "string \<times> string \<times> pytype \<times> json"

definition default_entries :: "entry list" where
  "default_entries =
     [(''colours'', ''primary'', TStr, JStr ''#00FF00''),
      (''colours'', ''secondary'', TStr, JStr ''#FF0000''),
      (''effects'', ''live_preview'', TBool, JBool True),
      (''general'', ''landing_tab'', TStr, JStr ''devices''),
      (''tray'', ''force_legacy_gtk_status'', TBool, JBool False),
      (''tray'', ''icon'', TStr, JStr ''ui/img/tray/light/polychromatic.svg'')]"

fun validate_list :: "string \<Rightarrow> entry list \<Rightarrow> json \<Rightarrow> json io" where
  "validate_list r [] d = ret d"
| "validate_list r ((g, k, t, dv) # es) d = bind (validate r g k t dv d) (validate_list r es)"

fun validated_list :: "entry list \<Rightarrow> json \<Rightarrow> json" where
  "validated_list [] d = d"
| "validated_list ((g, k, t, dv) # es) d = validated_list es (validated g k t dv d)"

definition validated_all :: "json \<Rightarrow> json" where
  "validated_all d = validated_list default_entries d"

text \<open>All entries of a list are in the document with their types; all their groups are
  absent or dicts in a document that is a dict; the defaults have the types asked for and
  no group is \<open>config_version\<close>.\<close>

definition entries_ok :: "entry list \<Rightarrow> json \<Rightarrow> bool" where
  "entries_ok es d = (\<forall>(g, k, t, dv) \<in> set es. entry_ok d g k t)"

definition groups_ok :: "entry list \<Rightarrow> json \<Rightarrow> bool" where
  "groups_ok es d = (type_of d = TDict \<and> (\<forall>(g, k, t, dv) \<in> set es. mapping_or_absent d g))"

definition entries_wf :: "entry list \<Rightarrow> bool" where
  "entries_wf es = (\<forall>(g, k, t, dv) \<in> set es. type_of dv = t \<and> g \<noteq> ''config_version'')"

definition keys_of :: "entry list \<Rightarrow> (string \<times> string) list" where
  "keys_of es = map (\<lambda>(g, k, t, dv). (g, k)) es"

text \<open>The document that \<open>load_file\<close> returns for a fresh preferences file; a file that
  is there, readable and writable; and a state in which the preferences file can be read,
  written, backed up and recreated, and holds, if it parses, a dict whose default groups
  are absent or dicts.\<close>

definition default_document :: json where
  "default_document =
     JDict [(''colours'', JDict [(''primary'', JStr ''#00FF00''), (''secondary'', JStr ''#FF0000'')]),
            (''config_version'', JInt 7),
            (''effects'', JDict [(''live_preview'', JBool True)]),
            (''general'', JDict [(''landing_tab'', JStr ''devices'')]),
            (''tray'', JDict [(''force_legacy_gtk_status'', JBool False),
                              (''icon'', JStr ''ui/img/tray/light/polychromatic.svg'')])]"

definition rw_file :: "fs \<Rightarrow> string \<Rightarrow> bool" where
  "rw_file s p = (\<exists>f. files s p = Some f \<and> readable f \<and> writable f)"

definition usable_preferences :: "string \<Rightarrow> fs \<Rightarrow> bool" where
  "usable_preferences r s =
     (dir_writable s (preferences r) \<and> dir_writable s (preferences r @ ''.bak'') \<and>
      (case files s (preferences r) of
         None \<Rightarrow> True
       | Some f \<Rightarrow> readable f \<and> writable f \<and>
           (case content f of Unparsable t \<Rightarrow> True | Parsed d \<Rightarrow> groups_ok default_entries d)))"

text \<open>What the conversion of one legacy colour yields: the entry \<open>{name, hex}\<close> made from
  the \<open>name\<close> and the \<open>col\<close> of the colour with that ID.\<close>

definition converted :: "(json \<Rightarrow> exn + json) \<Rightarrow> json \<Rightarrow> string \<Rightarrow> json \<Rightarrow> bool" where
  "converted rgb_to_hex old_colours uuid entry =
     (\<exists>n c h. getitem2 old_colours uuid ''name'' = Inr n \<and> getitem2 old_colours uuid ''col'' = Inr c \<and>
        rgb_to_hex c = Inr h \<and> entry = JDict [(''name'', n), (''hex'', h)])"

text \<open>The number that an ASCII decimal string denotes: white space around it, an optional
  sign, decimal digits with single underscores between them.\<close>

definition is_space :: "char \<Rightarrow> bool" where
  "is_space c = (c = CHR '' '' \<or> (CHR 0x09 \<le> c \<and> c \<le> CHR 0x0D) \<or> (CHR 0x1C \<le> c \<and> c \<le> CHR 0x1F))"

definition strip :: "string \<Rightarrow> string" where
  "strip s = rev (dropWhile is_space (rev (dropWhile is_space s)))"

fun digits :: "string \<Rightarrow> nat \<Rightarrow> bool \<Rightarrow> nat option" where
  "digits [] acc prev = (if prev then Some acc else None)"
| "digits (c # cs) acc prev =
     (if CHR ''0'' \<le> c \<and> c \<le> CHR ''9'' then digits cs (10 * acc + (of_char c - 48)) True
      else if c = CHR ''_'' \<and> prev then digits cs acc False
      else None)"

definition decimal_of_str :: "string \<Rightarrow> int option" where
  "decimal_of_str s =
     (case strip s of
        [] \<Rightarrow> None
      | c # cs \<Rightarrow>
          if c = CHR ''-'' then map_option (\<lambda>n. - int n) (digits cs 0 False)
          else if c = CHR ''+'' then map_option int (digits cs 0 False)
          else map_option int (digits (c # cs) 0 False))"

text \<open>The conversion as the specification words it, for comparison with the code: the IDs
  are numeric strings and the entries are taken in ascending order of the numbers.\<close>

definition numeric_id :: "string \<Rightarrow> int" where
  "numeric_id uuid = (case decimal_of_str uuid of None \<Rightarrow> 0 | Some i \<Rightarrow> i)"

definition convert_colours_spec :: "(json \<Rightarrow> exn + json) \<Rightarrow> json \<Rightarrow> exn + json list" where
  "convert_colours_spec rgb_to_hex old_colours =
     (case dict_keys old_colours of
        Inl e \<Rightarrow> Inl e
      | Inr old_ids \<Rightarrow> convert_colours rgb_to_hex old_colours (sort_key numeric_id old_ids) [])"

text \<open>
  The documents on which the migration runs to its end: a dict in which the default groups,
  \<open>editor\<close> and \<open>tray_icon\<close> are absent or dicts, and in which \<open>tray_icon.value\<close>, if
  there, is hashable (neither a list nor a dict). The colours documents that the step for
  versions below 7 handles: a list, the legacy palette, or a dict whose conversion raises
  nothing. \<open>migratable\<close> says that the preferences file is readable and holds such a
  document; \<open>unchanged_outside P\<close> that a run touched no file outside \<open>P\<close> and no
  permission.
\<close>

definition tray_icon_ok :: "json \<Rightarrow> bool" where
  "tray_icon_ok d =
     (mapping_or_absent d ''tray_icon'' \<and>
      (case getitem2 d ''tray_icon'' ''value'' of
         Inl e \<Rightarrow> True
       | Inr v \<Rightarrow> type_of v \<noteq> TList \<and> type_of v \<noteq> TDict))"

definition legacy_ok :: "json \<Rightarrow> bool" where
  "legacy_ok d =
     (groups_ok default_entries d \<and> mapping_or_absent d ''editor'' \<and> tray_icon_ok d)"

definition colours_ok :: "(json \<Rightarrow> exn + json) \<Rightarrow> json \<Rightarrow> bool" where
  "colours_ok rgb_to_hex c =
     (type_of c = TList \<or> py_eq c old_colour_json \<or>
      (case dict_keys c of
         Inl e \<Rightarrow> False
       | Inr old_ids \<Rightarrow>
           (case convert_colours rgb_to_hex c (sort old_ids) [] of Inl e \<Rightarrow> False | Inr new \<Rightarrow> True)))"

definition colours_file_ok :: "string \<Rightarrow> (json \<Rightarrow> exn + json) \<Rightarrow> fs \<Rightarrow> bool" where
  "colours_file_ok r rgb_to_hex s =
     (case files s (colours r) of
        None \<Rightarrow> True
      | Some f \<Rightarrow>
          (case content f of
             Unparsable t \<Rightarrow> True
           | Parsed c \<Rightarrow> readable f \<longrightarrow> colours_ok rgb_to_hex c))"

definition migratable :: "string \<Rightarrow> fs \<Rightarrow> bool" where
  "migratable r s =
     (\<exists>f d. files s (preferences r) = Some f \<and> readable f \<and> content f = Parsed d \<and> legacy_ok d)"

definition unchanged_outside :: "string set \<Rightarrow> fs \<Rightarrow> fs \<Rightarrow> bool" where
  "unchanged_outside P s s' =
     (dir_writable s' = dir_writable s \<and> (\<forall>q. q \<notin> P \<longrightarrow> files s' q = files s q))"

section \<open>Example states\<close>

text \<open>A file system in which every directory is writable, holding the listed files, each
  readable and writable; a parse of ASCII decimal strings to stand for \<open>int\<close> on strings;
  and the empty file system with every directory read-only.\<close>

definition fs_of :: "(string \<times> content) list \<Rightarrow> fs" where
  "fs_of xs =
     \<lparr>files = map_of (map (\<lambda>(p, c). (p, \<lparr>content = c, readable = True, writable = True\<rparr>)) xs),
      dir_writable = (\<lambda>_. True), out = []\<rparr>"

definition ascii_int :: "string \<Rightarrow> exn + int" where
  "ascii_int s = (case decimal_of_str s of None \<Rightarrow> Inl ValueError | Some i \<Rightarrow> Inr i)"

definition read_only_fs :: fs where
  "read_only_fs = \<lparr>files = Map.empty, dir_writable = (\<lambda>_. False), out = []\<rparr>"

text \<open>A legacy colours document with the IDs 2 and 10.\<close>

definition two_colours :: json where
  "two_colours =
     JDict [(''2'', JDict [(''name'', JStr ''Red''), (''col'', JList [JInt 255, JInt 0, JInt 0])]),
            (''10'', JDict [(''name'', JStr ''Teal''), (''col'', JList [JInt 0, JInt 128, JInt 128])])]"

text \<open>The version 4 document of the specification's scenario, and a version 5 document
  that holds every default entry and a \<open>tray_icon\<close> whose value is a list.\<close>

definition legacy_preferences :: json where
  "legacy_preferences =
     JDict [(''editor'', JDict [(''live_preview'', JStr ''true'')]), (''config_version'', JInt 4)]"

definition stuck_preferences :: json where
  "stuck_preferences =
     JDict [(''colours'', JDict [(''primary'', JStr ''#00FF00''), (''secondary'', JStr ''#FF0000'')]),
            (''config_version'', JInt 5),
            (''effects'', JDict [(''live_preview'', JBool True)]),
            (''general'', JDict [(''landing_tab'', JStr ''devices'')]),
            (''tray'', JDict [(''force_legacy_gtk_status'', JBool False), (''icon'', JStr ''a.svg'')]),
            (''tray_icon'', JDict [(''type'', JStr ''builtin''), (''value'', JList [])])]"

section \<open>Basic facts\<close>

lemmas io_defs = ret_def raise_def lift_def bind_def try_except_def stdout_def path_exists_def
  access_w_def open_read_def json_load_def open_w_close_def write_json_def os_rename_def
  os_remove_def

lemmas path_defs = preferences_def colours_def old_devicestate_def

lemmas run_defs = Let_def load_file_def read_or_init_def validate_all_def validate_def save_file_def
  init_config_def io_defs version_def path_defs getitem2_def setitem2_def fs_of_def

lemma getitem_setitem:
  "setitem d k v = Inr d' \<Longrightarrow> getitem d' k' = (if k' = k then Inr v else getitem d k')"
  by (cases d) (auto simp: update_conv')

lemma map_of_insort_key:
  "map_of (insort_key fst (k, v) xs) = (map_of xs)(k \<mapsto> v)"
  by (induction xs) (auto simp: fun_upd_twist)

lemma map_of_sort_key: "map_of (sort_key fst xs) = map_of xs"
proof (induction xs)
  case Nil
  then show ?case by simp
next
  case (Cons x xs)
  obtain k v where x: "x = (k, v)" by (cases x)
  show ?case using Cons by (simp add: x map_of_insort_key)
qed

lemma map_of_sort_keys_items:
  "map_of (sort_keys_items kvs) k = map_option sort_keys (map_of kvs k)"
  by (induction kvs) auto

lemma type_of_sort_keys [simp]: "type_of (sort_keys x) = type_of x"
  by (cases x) auto

lemma getitem_sort_keys:
  "getitem (sort_keys d) k = (case getitem d k of Inl e \<Rightarrow> Inl e | Inr v \<Rightarrow> Inr (sort_keys v))"
  by (cases d) (auto simp: map_of_sort_key map_of_sort_keys_items split: option.splits)

lemma getitem2_sort_keys:
  "getitem2 (sort_keys d) g k = (case getitem2 d g k of Inl e \<Rightarrow> Inl e | Inr v \<Rightarrow> Inr (sort_keys v))"
  by (auto simp: getitem2_def getitem_sort_keys split: sum.splits)

lemma entry_ok_sort_keys [simp]: "entry_ok (sort_keys d) g k t = entry_ok d g k t"
  by (auto simp: entry_ok_def getitem2_sort_keys split: sum.splits)

lemma mapping_or_absent_sort_keys [simp]: "mapping_or_absent (sort_keys d) g = mapping_or_absent d g"
  by (auto simp: mapping_or_absent_def getitem_sort_keys split: sum.splits)

lemma type_of_put [simp]: "type_of (put k v d) = type_of d"
  by (cases d) (auto simp: put_def)

lemma setitem_put: "type_of d = TDict \<Longrightarrow> setitem d k v = Inr (put k v d)"
  by (cases d) (auto simp: put_def)

lemma getitem_put:
  "type_of d = TDict \<Longrightarrow> getitem (put k v d) k' = (if k' = k then Inr v else getitem d k')"
  by (cases d) (auto simp: put_def update_conv')

lemma type_of_put2 [simp]: "type_of (put2 g k v d) = type_of d"
  by (auto simp: put2_def split: sum.splits)

lemma getitem_Inr_dict: "getitem d k = Inr v \<Longrightarrow> type_of d = TDict"
  by (cases d) auto

lemma setitem2_put2:
  "getitem d g = Inr grp \<Longrightarrow> type_of grp = TDict \<Longrightarrow> setitem2 d g k v = Inr (put2 g k v d)"
  by (auto simp: setitem2_def put2_def setitem_put dest: getitem_Inr_dict)

lemma getitem_put2:
  "getitem d g = Inr grp \<Longrightarrow> type_of grp = TDict \<Longrightarrow>
     getitem (put2 g k v d) g2 = (if g2 = g then Inr (put k v grp) else getitem d g2)"
  by (auto simp: put2_def getitem_put dest: getitem_Inr_dict)

lemma getitem2_put2:
  "getitem d g = Inr grp \<Longrightarrow> type_of grp = TDict \<Longrightarrow>
     getitem2 (put2 g k v d) g2 k2 = (if g2 = g \<and> k2 = k then Inr v else getitem2 d g2 k2)"
  by (auto simp: getitem2_def getitem_put2 getitem_put)

lemma getitem2_put:
  "type_of d = TDict \<Longrightarrow> g2 \<noteq> k \<Longrightarrow> getitem2 (put k v d) g2 k2 = getitem2 d g2 k2"
  by (simp add: getitem2_def getitem_put)

lemma save_file_eq:
  assumes "can_save s p" and "p = preferences r \<longrightarrow> type_of d = TDict"
  shows "save_file r p d s =
           (Inr ((case files s p of Some f \<Rightarrow> writable f | None \<Rightarrow> True),
                 (if p = preferences r then put ''config_version'' (JInt 7) d else d)),
            written p (if p = preferences r then put ''config_version'' (JInt 7) d else d) s)"
  using assms
  by (auto simp: save_file_def io_defs version_def can_save_def written_def setitem_put split: option.splits)

lemma save_file_not_writable:
  assumes "files s p = Some f" and "\<not> writable f" and "p = preferences r \<longrightarrow> type_of d = TDict"
  shows "save_file r p d s =
           (Inr (False, if p = preferences r then put ''config_version'' (JInt 7) d else d), s)"
  using assms save_file_eq [of s p r d]
  by (auto simp: can_save_def written_def)

lemma written_written [simp]: "written p d2 (written p d1 s) = written p d2 s"
  by (auto simp: written_def split: option.splits)

lemma can_save_written: "can_save s q \<Longrightarrow> can_save (written p d s) q"
  by (auto simp: written_def can_save_def split: option.splits if_splits)

lemma can_save_created: "files s p = None \<Longrightarrow> can_save (written p d s) p"
  by (simp add: written_def can_save_def)

lemma getitem_Inr_type: "getitem d g = Inr grp \<Longrightarrow> type_of d = TDict"
  by (cases d) auto

lemma validate_eq:
  assumes d: "type_of d = TDict" and g: "mapping_or_absent d g" and s: "can_save s (preferences r)"
    and t: "type_of dv = t" and gc: "g \<noteq> ''config_version''"
  shows "validate r g k t dv d s =
           (Inr (validated g k t dv d),
            if entry_ok d g k t then s else written (preferences r) (validated g k t dv d) s)"
proof (cases "getitem d g")
  case (Inl e)
  with g have e: "e = KeyError" by (simp add: mapping_or_absent_def)
  have g1: "getitem (put g (JDict []) d) g = Inr (JDict [])"
    using d by (simp add: getitem_put)
  have nok: "\<not> entry_ok d g k t" using Inl by (simp add: entry_ok_def getitem2_def)
  have s2: "setitem2 (put g (JDict []) d) g k dv = Inr (put2 g k dv (put g (JDict []) d))"
    using g1 by (simp add: setitem2_put2)
  have g2: "getitem2 (put ''config_version'' (JInt 7) (put2 g k dv (put g (JDict []) d))) g k = Inr dv"
    using d g1 gc by (simp add: getitem2_def getitem_put getitem_put2)
  show ?thesis
    using Inl e nok d s t g1 s2 g2
    by (simp add: validate_def validated_def io_defs setitem_put save_file_eq getitem2_def[of "put g (JDict []) d"])
next
  case (Inr grp)
  with g have grp: "type_of grp = TDict" by (simp add: mapping_or_absent_def)
  show ?thesis
  proof (cases "getitem grp k")
    case (Inl e)
    have e: "e = KeyError" using Inl grp by (cases grp) (auto split: option.splits)
    have nok: "\<not> entry_ok d g k t" using Inr Inl by (simp add: entry_ok_def getitem2_def)
    have g2: "getitem2 (put ''config_version'' (JInt 7) (put2 g k dv d)) g k = Inr dv"
      using d Inr grp gc by (simp add: getitem2_def getitem_put getitem_put2)
    show ?thesis
      using Inr Inl e nok d s t grp g2
      by (simp add: validate_def validated_def io_defs setitem2_put2 save_file_eq getitem2_def[of d])
  next
    case v: (Inr v)
    show ?thesis
    proof (cases "type_of v = t")
      case True
      then show ?thesis using Inr v
        by (simp add: validate_def validated_def io_defs getitem2_def entry_ok_def)
    next
      case False
      have nok: "\<not> entry_ok d g k t" using Inr v False by (simp add: entry_ok_def getitem2_def)
      show ?thesis
        using Inr v False nok d s t grp gc
        by (simp add: validate_def validated_def io_defs setitem2_put2 save_file_eq getitem2_def[of d])
    qed
  qed
qed

lemma getitem_validated_other:
  assumes "type_of d = TDict" and "g2 \<noteq> g" and "g2 \<noteq> ''config_version''"
  shows "getitem (validated g k t dv d) g2 = getitem d g2"
proof (cases "getitem d g")
  case (Inl e)
  have "getitem (put g (JDict []) d) g = Inr (JDict [])" using assms by (simp add: getitem_put)
  then show ?thesis using assms Inl
    by (simp add: validated_def getitem_put getitem_put2)
next
  case (Inr grp)
  then show ?thesis using assms
    by (auto simp: validated_def getitem_put put2_def)
qed

lemma getitem2_validated:
  assumes d: "type_of d = TDict" and g: "mapping_or_absent d g" and gc: "g \<noteq> ''config_version''"
    and g2: "g2 \<noteq> ''config_version''"
  shows "getitem2 (validated g k t dv d) g2 k2 =
           (if g2 = g \<and> k2 = k \<and> \<not> entry_ok d g k t then Inr dv else getitem2 d g2 k2)"
proof (cases "entry_ok d g k t")
  case True
  then show ?thesis by (simp add: validated_def)
next
  case False
  show ?thesis
  proof (cases "getitem d g")
    case (Inl e)
    with g have e: "e = KeyError" by (simp add: mapping_or_absent_def)
    have g1: "getitem (put g (JDict []) d) g = Inr (JDict [])" using d by (simp add: getitem_put)
    have "getitem2 (put2 g k dv (put g (JDict []) d)) g2 k2 =
            (if g2 = g \<and> k2 = k then Inr dv else getitem2 (put g (JDict []) d) g2 k2)"
      using g1 by (simp add: getitem2_put2)
    moreover have "getitem2 (put g (JDict []) d) g2 k2 = getitem2 d g2 k2"
      using d Inl e by (simp add: getitem2_def getitem_put)
    ultimately show ?thesis using False Inl d g2
      by (simp add: validated_def getitem2_put)
  next
    case (Inr grp)
    with g have grp: "type_of grp = TDict" by (simp add: mapping_or_absent_def)
    show ?thesis using False Inr grp d g2
      by (simp add: validated_def getitem2_put getitem2_put2)
  qed
qed

lemma type_of_validated [simp]: "type_of (validated g k t dv d) = type_of d"
  by (auto simp: validated_def split: sum.splits)

lemma validated_ok: "entry_ok d g k t \<Longrightarrow> validated g k t dv d = d"
  by (simp add: validated_def)

lemma entry_ok_validated:
  assumes "type_of d = TDict" and "mapping_or_absent d g" and "g \<noteq> ''config_version''"
    and "g2 \<noteq> ''config_version''"
  shows "entry_ok (validated g k t dv d) g2 k2 t2 =
           (if g2 = g \<and> k2 = k \<and> \<not> entry_ok d g k t then type_of dv = t2 else entry_ok d g2 k2 t2)"
  by (simp add: entry_ok_def getitem2_validated [OF assms])

lemma entry_ok_mapping: "entry_ok d g k t \<Longrightarrow> mapping_or_absent d g"
  by (auto simp: entry_ok_def getitem2_def mapping_or_absent_def dest: getitem_Inr_type split: sum.splits)

lemma mapping_or_absent_validated:
  assumes d: "type_of d = TDict" and g: "mapping_or_absent d g" and gc: "g \<noteq> ''config_version''"
    and g2: "g2 \<noteq> ''config_version''" and m: "mapping_or_absent d g2" and t: "type_of dv = t"
  shows "mapping_or_absent (validated g k t dv d) g2"
proof (cases "g2 = g")
  case True
  have "entry_ok (validated g k t dv d) g k t"
    using t by (simp add: entry_ok_validated [OF d g gc gc])
  then show ?thesis using True by (simp add: entry_ok_mapping)
next
  case False
  then show ?thesis using m d g2 by (simp add: mapping_or_absent_def getitem_validated_other)
qed

lemma bind_ret [simp]: "bind m ret = m"
  by (rule ext) (auto simp: bind_def ret_def split: prod.splits sum.splits)

lemma validate_list_Nil_fun: "validate_list r [] = ret"
  by (rule ext) simp

lemma validate_list_Cons_fun:
  "validate_list r ((g, k, t, dv) # es) = (\<lambda>d. bind (validate r g k t dv d) (validate_list r es))"
  by (rule ext) simp

lemma validate_all_list: "validate_all r d = validate_list r default_entries d"
  by (simp add: validate_all_def default_entries_def validate_list_Nil_fun validate_list_Cons_fun
           del: validate_list.simps)

lemma groups_ok_validated:
  assumes "groups_ok ((g, k, t, dv) # es) d" and "entries_wf ((g, k, t, dv) # es)"
  shows "groups_ok es (validated g k t dv d)"
  using assms
  by (auto simp: groups_ok_def entries_wf_def intro!: mapping_or_absent_validated)

lemma validate_list_eq:
  assumes "groups_ok es d" and "entries_wf es" and "can_save s (preferences r)"
  shows "\<exists>s'. validate_list r es d s = (Inr (validated_list es d), s') \<and>
           ((validated_list es d = d \<and> s' = s) \<or> s' = written (preferences r) (validated_list es d) s)"
  using assms
proof (induction es arbitrary: d s)
  case Nil
  then show ?case by (simp add: ret_def)
next
  case (Cons e es)
  obtain g k t dv where e: "e = (g, k, t, dv)" by (cases e)
  let ?d1 = "validated g k t dv d"
  let ?s1 = "if entry_ok d g k t then s else written (preferences r) ?d1 s"
  have d: "type_of d = TDict" and m: "mapping_or_absent d g" and t: "type_of dv = t"
    and gc: "g \<noteq> ''config_version''"
    using Cons.prems by (auto simp: e groups_ok_def entries_wf_def)
  have v: "validate r g k t dv d s = (Inr ?d1, ?s1)"
    using validate_eq [OF d m Cons.prems(3) t gc] .
  have g1: "groups_ok es ?d1" using Cons.prems by (simp add: e groups_ok_validated)
  have w1: "entries_wf es" using Cons.prems by (simp add: entries_wf_def)
  have c1: "can_save ?s1 (preferences r)" using Cons.prems(3) by (simp add: can_save_written)
  from Cons.IH [OF g1 w1 c1] obtain s' where
    run: "validate_list r es ?d1 ?s1 = (Inr (validated_list es ?d1), s')"
    and st: "(validated_list es ?d1 = ?d1 \<and> s' = ?s1) \<or>
             s' = written (preferences r) (validated_list es ?d1) ?s1"
    by blast
  have "validate_list r (e # es) d s = (Inr (validated_list (e # es) d), s')"
    using v run by (simp add: e bind_def)
  moreover have "(validated_list (e # es) d = d \<and> s' = s) \<or>
      s' = written (preferences r) (validated_list (e # es) d) s"
    using st by (cases "entry_ok d g k t") (auto simp: e validated_ok)
  ultimately show ?case by blast
qed

lemma validate_list_noop:
  "entries_ok es d \<Longrightarrow> validate_list r es d s = (Inr d, s)"
proof (induction es)
  case Nil
  then show ?case by (simp add: ret_def)
next
  case (Cons e es)
  obtain g k t dv where e: "e = (g, k, t, dv)" by (cases e)
  have "entry_ok d g k t" and "entries_ok es d" using Cons.prems by (auto simp: e entries_ok_def)
  then show ?case using Cons.IH
    by (auto simp: e bind_def validate_def io_defs entry_ok_def getitem2_def split: sum.splits)
qed

lemma type_of_validated_list [simp]: "type_of (validated_list es d) = type_of d"
  by (induction es arbitrary: d) auto

lemma getitem2_validated_list:
  assumes "groups_ok es d" and "entries_wf es" and "g2 \<noteq> ''config_version''"
    and "(g2, k2) \<notin> set (keys_of es)"
  shows "getitem2 (validated_list es d) g2 k2 = getitem2 d g2 k2"
  using assms
proof (induction es arbitrary: d)
  case Nil
  then show ?case by simp
next
  case (Cons e es)
  obtain g k t dv where e: "e = (g, k, t, dv)" by (cases e)
  have d: "type_of d = TDict" and m: "mapping_or_absent d g" and gc: "g \<noteq> ''config_version''"
    using Cons.prems by (auto simp: e groups_ok_def entries_wf_def)
  have g1: "groups_ok es (validated g k t dv d)" using Cons.prems by (simp add: e groups_ok_validated)
  have w1: "entries_wf es" using Cons.prems by (simp add: entries_wf_def)
  have n1: "(g2, k2) \<notin> set (keys_of es)" and ne: "\<not> (g2 = g \<and> k2 = k)"
    using Cons.prems by (auto simp: e keys_of_def)
  have "getitem2 (validated_list es (validated g k t dv d)) g2 k2 = getitem2 (validated g k t dv d) g2 k2"
    using Cons.IH [OF g1 w1 Cons.prems(3) n1] .
  also have "\<dots> = getitem2 d g2 k2"
    using ne by (auto simp: getitem2_validated [OF d m gc Cons.prems(3)])
  finally show ?case by (simp add: e)
qed

lemma getitem_validated_list:
  assumes "type_of d = TDict" and "g2 \<noteq> ''config_version''" and "g2 \<notin> fst ` set es"
  shows "getitem (validated_list es d) g2 = getitem d g2"
  using assms
proof (induction es arbitrary: d)
  case Nil
  then show ?case by simp
next
  case (Cons e es)
  obtain g k t dv where e: "e = (g, k, t, dv)" by (cases e)
  show ?case using Cons by (simp add: e getitem_validated_other)
qed

lemma entries_ok_validated_list:
  assumes "groups_ok es d" and "entries_wf es" and "distinct (keys_of es)"
  shows "entries_ok es (validated_list es d)"
  using assms
proof (induction es arbitrary: d)
  case Nil
  then show ?case by (simp add: entries_ok_def)
next
  case (Cons e es)
  obtain g k t dv where e: "e = (g, k, t, dv)" by (cases e)
  have d: "type_of d = TDict" and m: "mapping_or_absent d g" and gc: "g \<noteq> ''config_version''"
    and t: "type_of dv = t"
    using Cons.prems by (auto simp: e groups_ok_def entries_wf_def)
  have g1: "groups_ok es (validated g k t dv d)" using Cons.prems by (simp add: e groups_ok_validated)
  have w1: "entries_wf es" using Cons.prems by (simp add: entries_wf_def)
  have n1: "(g, k) \<notin> set (keys_of es)" and d1: "distinct (keys_of es)"
    using Cons.prems by (auto simp: e keys_of_def)
  have "entry_ok (validated g k t dv d) g k t"
    using t by (simp add: entry_ok_validated [OF d m gc gc])
  then have "entry_ok (validated_list es (validated g k t dv d)) g k t"
    by (simp add: entry_ok_def getitem2_validated_list [OF g1 w1 gc n1])
  moreover have "entries_ok es (validated_list es (validated g k t dv d))"
    using Cons.IH [OF g1 w1 d1] .
  ultimately show ?case by (simp add: e entries_ok_def)
qed

lemma default_entries_wf: "entries_wf default_entries"
  by (simp add: entries_wf_def default_entries_def)

lemma default_entries_distinct: "distinct (keys_of default_entries)"
  by (simp add: keys_of_def default_entries_def)

lemma entries_ok_validated_all:
  "groups_ok default_entries d \<Longrightarrow> entries_ok default_entries (validated_all d)"
  by (simp add: validated_all_def entries_ok_validated_list default_entries_wf default_entries_distinct)

lemma groups_ok_entries_ok: "entries_ok es d \<Longrightarrow> type_of d = TDict \<Longrightarrow> groups_ok es d"
  by (auto simp: entries_ok_def groups_ok_def dest: entry_ok_mapping)

lemma save_file_prefs_Inr:
  "save_file r (preferences r) d s = (Inr (ok, d'), s') \<Longrightarrow>
     type_of d = TDict \<and> d' = put ''config_version'' (JInt 7) d"
  by (cases d)
     (auto simp: save_file_def io_defs version_def put_def
           split: if_splits sum.splits prod.splits option.splits)

lemma repair_Inr:
  assumes "bind (lift (setitem2 d g k dv))
             (\<lambda>data. bind (save_file r (preferences r) data) (\<lambda>(ok, data). ret data)) s = (Inr d', s')"
    and "getitem d g = Inr grp"
  shows "type_of grp = TDict \<and> d' = put ''config_version'' (JInt 7) (put2 g k dv d)"
proof -
  from assms(1) obtain d2 where s2: "setitem2 d g k dv = Inr d2"
    by (cases "setitem2 d g k dv") (auto simp: bind_def lift_def)
  have grp: "type_of grp = TDict"
    using s2 assms(2) by (cases grp) (auto simp: setitem2_def)
  have d2: "d2 = put2 g k dv d" using s2 setitem2_put2 [OF assms(2) grp] by simp
  from assms(1) s2 obtain ok s2' where "save_file r (preferences r) d2 s = (Inr (ok, d'), s2')"
    by (auto simp: bind_def lift_def ret_def split: sum.splits prod.splits)
  from save_file_prefs_Inr [OF this] grp d2 show ?thesis by simp
qed

lemma bind_Inr:
  "bind m f s = (Inr y, s'') \<Longrightarrow> \<exists>x s'. m s = (Inr x, s') \<and> f x s' = (Inr y, s'')"
  by (auto simp: bind_def split: sum.splits prod.splits)

lemma try_except_lift_Inr:
  "try_except (bind (lift x) (\<lambda>_. ret a)) c h s = (Inr y, s') \<Longrightarrow>
     ((\<exists>v. x = Inr v) \<and> y = a \<and> s' = s) \<or> (\<exists>e. x = Inl e \<and> c e \<and> h s = (Inr y, s'))"
  by (cases x) (auto simp: io_defs split: if_splits)

lemma bind_lift_Inr:
  "bind (lift x) f s = (Inr y, s') \<Longrightarrow> \<exists>v. x = Inr v \<and> f v s = (Inr y, s')"
  by (cases x) (auto simp: io_defs)

lemma getitem_KeyError_type: "getitem d k = Inl KeyError \<Longrightarrow> type_of d = TDict"
  by (cases d) auto

lemma validate_Inr:
  assumes run: "validate r g k t dv d s = (Inr d', s')" and gc: "g \<noteq> ''config_version''"
    and t: "type_of dv = t"
  shows "type_of d = TDict \<and> mapping_or_absent d g \<and> d' = validated g k t dv d"
proof -
  from bind_Inr [OF run [unfolded validate_def]] obtain d1 s1 where
    a: "try_except (bind (lift (getitem d g)) (\<lambda>_. ret d)) (only KeyError)
          (lift (setitem d g (JDict []))) s = (Inr d1, s1)"
    and rest: "bind (try_except (bind (lift (getitem2 d1 g k)) (\<lambda>_. ret d1)) (only KeyError)
             (bind (lift (setitem2 d1 g k dv))
                (\<lambda>data. bind (save_file r (preferences r) data) (\<lambda>(ok, data). ret data))))
       (\<lambda>data.
     bind (lift (getitem2 data g k))
       (\<lambda>v. if type_of v \<noteq> t
            then bind (lift (setitem2 data g k dv))
                   (\<lambda>data. bind (save_file r (preferences r) data) (\<lambda>(ok, data). ret data))
            else ret data)) s1 = (Inr d', s')"
    by blast
  from bind_Inr [OF rest] obtain dm sm where
    b: "try_except (bind (lift (getitem2 d1 g k)) (\<lambda>_. ret d1)) (only KeyError)
             (bind (lift (setitem2 d1 g k dv))
                (\<lambda>data. bind (save_file r (preferences r) data) (\<lambda>(ok, data). ret data))) s1
          = (Inr dm, sm)"
    and c: "bind (lift (getitem2 dm g k))
       (\<lambda>v. if type_of v \<noteq> t
            then bind (lift (setitem2 dm g k dv))
                   (\<lambda>data. bind (save_file r (preferences r) data) (\<lambda>(ok, data). ret data))
            else ret dm) sm = (Inr d', s')"
    by blast
  from try_except_lift_Inr [OF a] have a':
    "((\<exists>grp. getitem d g = Inr grp) \<and> d1 = d) \<or>
     (getitem d g = Inl KeyError \<and> type_of d = TDict \<and> d1 = put g (JDict []) d)"
    by (auto simp: lift_def setitem_put dest: getitem_KeyError_type)
  have d: "type_of d = TDict" using a' by (auto dest: getitem_Inr_type)
  obtain grp1 where g1: "getitem d1 g = Inr grp1"
    and g1': "(getitem d g = Inr grp1 \<and> d1 = d) \<or> (getitem d g = Inl KeyError \<and> grp1 = JDict [] \<and> d1 = put g (JDict []) d)"
    using a' d by (auto simp: getitem_put)
  from try_except_lift_Inr [OF b] have b':
    "((\<exists>v. getitem2 d1 g k = Inr v) \<and> dm = d1) \<or>
     (getitem2 d1 g k = Inl KeyError \<and> type_of grp1 = TDict \<and>
      dm = put ''config_version'' (JInt 7) (put2 g k dv d1))"
    using repair_Inr [OF _ g1] by auto
  have grp1: "type_of grp1 = TDict"
    using b' g1 by (auto simp: getitem2_def dest: getitem_Inr_type)
  have m: "mapping_or_absent d g" using g1' grp1 by (auto simp: mapping_or_absent_def)
  from bind_lift_Inr [OF c] obtain v where v: "getitem2 dm g k = Inr v"
    and c': "(type_of v = t \<and> d' = dm) \<or>
             (type_of v \<noteq> t \<and> bind (lift (setitem2 dm g k dv))
                   (\<lambda>data. bind (save_file r (preferences r) data) (\<lambda>(ok, data). ret data)) sm = (Inr d', s'))"
    by (auto simp: ret_def split: if_splits)
  show ?thesis
  proof (cases "getitem2 d1 g k")
    case (Inl e)
    then have dm: "dm = put ''config_version'' (JInt 7) (put2 g k dv d1)" using b' by auto
    have "type_of d1 = TDict" using g1 by (rule getitem_Inr_type)
    then have "v = dv" using v g1 grp1 gc by (simp add: dm getitem2_put getitem2_put2)
    then have "d' = dm" using c' t by auto
    moreover have "\<not> entry_ok d g k t"
      using Inl g1' d by (auto simp: entry_ok_def getitem2_def getitem_put)
    ultimately show ?thesis using d m g1' dm by (auto simp: validated_def)
  next
    case (Inr v1)
    then have dm: "dm = d1" using b' by auto
    have d1: "d1 = d" and gd: "getitem d g = Inr grp1"
      using g1' Inr d by (auto simp: getitem2_def getitem_put)
    have vv: "v = v1" using v Inr dm by simp
    show ?thesis
    proof (cases "type_of v = t")
      case True
      then have "d' = d" using c' dm d1 by auto
      moreover have "entry_ok d g k t" using True Inr vv d1 by (simp add: entry_ok_def)
      ultimately show ?thesis using d m by (simp add: validated_def)
    next
      case False
      then have rep: "bind (lift (setitem2 d g k dv))
                   (\<lambda>data. bind (save_file r (preferences r) data) (\<lambda>(ok, data). ret data)) sm = (Inr d', s')"
        using c' dm d1 by auto
      have "\<not> entry_ok d g k t" using False Inr vv d1 by (simp add: entry_ok_def)
      then show ?thesis using repair_Inr [OF rep gd] d m gd by (simp add: validated_def)
    qed
  qed
qed

lemma validate_list_Inr:
  assumes "validate_list r es d s = (Inr d', s')" and "entries_wf es"
  shows "d' = validated_list es d \<and> (es \<noteq> [] \<longrightarrow> groups_ok es d)"
  using assms
proof (induction es arbitrary: d s)
  case Nil
  then show ?case by (simp add: ret_def)
next
  case (Cons e es)
  obtain g k t dv where e: "e = (g, k, t, dv)" by (cases e)
  have gc: "g \<noteq> ''config_version''" and t: "type_of dv = t" and w: "entries_wf es"
    using Cons.prems(2) by (auto simp: e entries_wf_def)
  from Cons.prems(1) obtain d1 s1 where v: "validate r g k t dv d s = (Inr d1, s1)"
    and l: "validate_list r es d1 s1 = (Inr d', s')"
    by (auto simp: e dest: bind_Inr)
  from validate_Inr [OF v gc t] have d: "type_of d = TDict" and m: "mapping_or_absent d g"
    and d1: "d1 = validated g k t dv d" by auto
  from Cons.IH [OF l w] have d': "d' = validated_list es d1" and gs: "es \<noteq> [] \<longrightarrow> groups_ok es d1"
    by auto
  have "mapping_or_absent d g2" if "g2 \<in> fst ` set es" for g2
  proof (cases "g2 = g")
    case True
    then show ?thesis using m by simp
  next
    case False
    have "g2 \<noteq> ''config_version''" using that w by (auto simp: entries_wf_def)
    moreover have "mapping_or_absent d1 g2" using that gs by (auto simp: groups_ok_def)
    ultimately show ?thesis using False d
      by (simp add: d1 mapping_or_absent_def getitem_validated_other)
  qed
  then have "groups_ok (e # es) d" using d m by (force simp: e groups_ok_def)
  then show ?case using d' d1 by (simp add: e)
qed

lemma validated_all_empty: "validated_all (JDict []) = default_document"
  by (simp add: validated_all_def default_entries_def validated_def entry_ok_def getitem2_def
        put_def put2_def default_document_def)

lemma sort_keys_default_document: "sort_keys default_document = default_document"
  by (simp add: default_document_def)

lemma read_or_init_parsed:
  "files s fp = Some f \<Longrightarrow> readable f \<Longrightarrow> content f = Parsed d \<Longrightarrow> read_or_init r fp s = (Inr d, s)"
  by (simp add: read_or_init_def io_defs)

lemma read_or_init_absent:
  assumes "files s fp = None" and "dir_writable s fp"
  shows "read_or_init r fp s =
           (Inr (JDict []),
            s\<lparr>files := (files s)(fp \<mapsto> \<lparr>content = Parsed (if fp = preferences r then JDict [(''config_version'', JInt 7)] else JDict []),
                                        readable = True, writable = True\<rparr>),
              out := out s @ [Success]\<rparr>)"
  using assms
  by (cases "fp = preferences r")
     (simp_all add: read_or_init_def init_config_def save_file_def io_defs version_def)

lemma read_or_init_corrupt:
  assumes "files s fp = Some f" and "content f = Unparsable t"
    and "dir_writable s fp" and "dir_writable s (fp @ ''.bak'')"
  shows "read_or_init r fp s =
           (Inr (JDict []),
            s\<lparr>files := (files s)(fp @ ''.bak'' \<mapsto> f,
                  fp \<mapsto> \<lparr>content = Parsed (if fp = preferences r then JDict [(''config_version'', JInt 7)] else JDict []),
                                        readable = True, writable = True\<rparr>),
              out := out s @ [Error, Error, Error, Success]\<rparr>)"
  using assms
  by (cases "fp = preferences r")
     (simp_all add: read_or_init_def init_config_def save_file_def io_defs version_def)

lemma load_file_other: "fp \<noteq> preferences r \<Longrightarrow> load_file r fp = read_or_init r fp"
  by (simp add: load_file_def)

lemma load_file_preferences:
  "read_or_init r (preferences r) s = (Inr d, s1) \<Longrightarrow>
     load_file r (preferences r) s = validate_list r default_entries d s1"
  by (simp add: load_file_def bind_def validate_all_list)

lemma rw_file_written: "rw_file s p \<Longrightarrow> rw_file (written p d s) p"
  by (auto simp: rw_file_def written_def)

lemma rw_file_can_save: "rw_file s p \<Longrightarrow> can_save s p"
  by (auto simp: rw_file_def can_save_def)

lemma files_written_rw:
  "rw_file s p \<Longrightarrow> \<exists>f. files (written p d s) p = Some f \<and> readable f \<and> writable f \<and>
      content f = Parsed (sort_keys d)"
  by (auto simp: rw_file_def written_def)

lemma files_written_other: "q \<noteq> p \<Longrightarrow> files (written p d s) q = files s q"
  by (auto simp: written_def split: option.splits)

lemma dir_writable_written [simp]: "dir_writable (written p d s) = dir_writable s"
  by (auto simp: written_def split: option.splits)

lemma out_written [simp]: "out (written p d s) = out s"
  by (auto simp: written_def split: option.splits)

lemma groups_ok_empty: "groups_ok es (JDict [])"
  by (auto simp: groups_ok_def mapping_or_absent_def)

lemma default_document_not_empty: "default_document \<noteq> JDict []"
  by (simp add: default_document_def)

lemma load_prefs_parsed:
  assumes "files s (preferences r) = Some f" and "readable f" and "content f = Parsed d"
    and "groups_ok default_entries d"
  shows "\<exists>s'. load_file r (preferences r) s = (Inr (validated_all d), s') \<and>
           (s' = s \<or> s' = written (preferences r) (validated_all d) s)"
proof -
  have c: "can_save s (preferences r)" using assms(1,2) by (simp add: can_save_def)
  from validate_list_eq [OF assms(4) default_entries_wf c]
  show ?thesis
    using load_file_preferences [OF read_or_init_parsed [OF assms(1-3)]]
    by (auto simp: validated_all_def)
qed

lemma load_prefs_fresh:
  assumes "read_or_init r (preferences r) s = (Inr (JDict []), s1)" and "rw_file s1 (preferences r)"
  shows "load_file r (preferences r) s = (Inr default_document, written (preferences r) default_document s1)"
proof -
  from validate_list_eq [OF groups_ok_empty default_entries_wf rw_file_can_save [OF assms(2)]]
  show ?thesis
    using load_file_preferences [OF assms(1)] default_document_not_empty
    by (auto simp: validated_all_empty [unfolded validated_all_def])
qed

lemma entries_ok_default_document: "entries_ok default_entries default_document"
  using entries_ok_validated_all [OF groups_ok_empty] by (simp add: validated_all_empty)

lemma type_of_default_document: "type_of default_document = TDict"
  by (simp add: default_document_def)

lemma load_prefs_ok:
  assumes "usable_preferences r s"
  shows "\<exists>D sa. load_file r (preferences r) s = (Inr D, sa) \<and> entries_ok default_entries D \<and>
           type_of D = TDict \<and> rw_file sa (preferences r) \<and> dir_writable sa = dir_writable s"
proof (cases "files s (preferences r)")
  case None
  have dw: "dir_writable s (preferences r)" using assms by (simp add: usable_preferences_def)
  obtain s1 where r1: "read_or_init r (preferences r) s = (Inr (JDict []), s1)"
    and rw1: "rw_file s1 (preferences r)" and dw1: "dir_writable s1 = dir_writable s"
    using read_or_init_absent [OF None dw, of r] by (simp add: rw_file_def)
  show ?thesis
    using load_prefs_fresh [OF r1 rw1] rw1 dw1
    by (auto simp: entries_ok_default_document type_of_default_document intro: rw_file_written)
next
  case (Some f)
  have dw: "dir_writable s (preferences r)" and db: "dir_writable s (preferences r @ ''.bak'')"
    and rf: "readable f" and wf: "writable f"
    using assms Some by (simp_all add: usable_preferences_def)
  show ?thesis
  proof (cases "content f")
    case (Unparsable t)
    obtain s1 where r1: "read_or_init r (preferences r) s = (Inr (JDict []), s1)"
      and rw1: "rw_file s1 (preferences r)" and dw1: "dir_writable s1 = dir_writable s"
      using read_or_init_corrupt [OF Some Unparsable dw db, of r] by (simp add: rw_file_def)
    show ?thesis
      using load_prefs_fresh [OF r1 rw1] rw1 dw1
      by (auto simp: entries_ok_default_document type_of_default_document intro: rw_file_written)
  next
    case (Parsed d)
    have g: "groups_ok default_entries d" using assms Some Parsed by (simp add: usable_preferences_def)
    have rw: "rw_file s (preferences r)" using Some rf wf by (simp add: rw_file_def)
    from load_prefs_parsed [OF Some rf Parsed g] show ?thesis
      using entries_ok_validated_all [OF g] g rw
      by (auto simp: groups_ok_def validated_all_def intro: rw_file_written)
  qed
qed

lemma getitem2_validated_list_mem:
  assumes "groups_ok es d" and "entries_wf es" and "distinct (keys_of es)" and "(g, k, t, dv) \<in> set es"
  shows "getitem2 (validated_list es d) g k = (if entry_ok d g k t then getitem2 d g k else Inr dv)"
  using assms
proof (induction es arbitrary: d)
  case Nil
  then show ?case by simp
next
  case (Cons e es)
  obtain g' k' t' dv' where e: "e = (g', k', t', dv')" by (cases e)
  have d: "type_of d = TDict" and m: "mapping_or_absent d g'" and gc': "g' \<noteq> ''config_version''"
    using Cons.prems by (auto simp: e groups_ok_def entries_wf_def)
  have gc: "g \<noteq> ''config_version''" using Cons.prems by (auto simp: entries_wf_def)
  have g1: "groups_ok es (validated g' k' t' dv' d)" using Cons.prems by (simp add: e groups_ok_validated)
  have w1: "entries_wf es" using Cons.prems by (simp add: entries_wf_def)
  have d1: "distinct (keys_of es)" and n1: "(g', k') \<notin> set (keys_of es)"
    using Cons.prems by (auto simp: e keys_of_def)
  show ?case
  proof (cases "(g, k, t, dv) = e")
    case True
    then have eq: "g' = g" "k' = k" "t' = t" "dv' = dv" by (auto simp: e)
    have "getitem2 (validated_list es (validated g k t dv d)) g k = getitem2 (validated g k t dv d) g k"
      using getitem2_validated_list [OF g1 w1 gc] n1 by (simp add: eq)
    then show ?thesis using d m gc by (simp add: e eq getitem2_validated)
  next
    case False
    then have mem: "(g, k, t, dv) \<in> set es" using Cons.prems by auto
    then have "(g, k) \<in> set (keys_of es)" by (force simp: keys_of_def)
    then have ne: "\<not> (g = g' \<and> k = k')" using n1 by auto
    have "getitem2 (validated_list es (validated g' k' t' dv' d)) g k =
            (if entry_ok (validated g' k' t' dv' d) g k t then getitem2 (validated g' k' t' dv' d) g k else Inr dv)"
      using Cons.IH [OF g1 w1 d1 mem] .
    moreover have "getitem2 (validated g' k' t' dv' d) g k = getitem2 d g k"
      using ne by (auto simp: getitem2_validated [OF d m gc' gc])
    ultimately show ?thesis by (simp add: e entry_ok_def)
  qed
qed

lemma mapping_or_absent_put:
  "type_of d = TDict \<Longrightarrow> g \<noteq> k \<Longrightarrow> mapping_or_absent (put k v d) g = mapping_or_absent d g"
  by (simp add: mapping_or_absent_def getitem_put)

lemma mapping_or_absent_put2:
  "getitem d g = Inr grp \<Longrightarrow> type_of grp = TDict \<Longrightarrow> mapping_or_absent d g2 \<Longrightarrow>
     mapping_or_absent (put2 g k v d) g2"
  by (simp add: mapping_or_absent_def getitem_put2)

lemma entry_ok_group:
  "entry_ok d g k t \<Longrightarrow> \<exists>grp. getitem d g = Inr grp \<and> type_of grp = TDict"
  by (auto simp: entry_ok_def getitem2_def dest: getitem_Inr_type split: sum.splits)

lemma tray_icon_entry:
  "(''tray'', ''icon'', TStr, JStr ''ui/img/tray/light/polychromatic.svg'') \<in> set default_entries"
  by (simp add: default_entries_def)

lemma convert_colours_acc:
  assumes "\<forall>uuid \<in> set ids. \<exists>entry. converted rgb_to_hex old uuid entry"
  shows "\<exists>new. convert_colours rgb_to_hex old ids acc = Inr (acc @ new) \<and>
           list_all2 (converted rgb_to_hex old) ids new"
  using assms
proof (induction ids arbitrary: acc)
  case Nil
  then show ?case by simp
next
  case (Cons uuid ids)
  from Cons.prems obtain n c h where
    n: "getitem2 old uuid ''name'' = Inr n" and c: "getitem2 old uuid ''col'' = Inr c"
    and h: "rgb_to_hex c = Inr h"
    by (auto simp: converted_def)
  have rest: "\<forall>uuid \<in> set ids. \<exists>entry. converted rgb_to_hex old uuid entry" using Cons.prems by simp
  from Cons.IH [OF rest, of "acc @ [JDict [(''name'', n), (''hex'', h)]]"] obtain new where
    r: "convert_colours rgb_to_hex old ids (acc @ [JDict [(''name'', n), (''hex'', h)]])
          = Inr ((acc @ [JDict [(''name'', n), (''hex'', h)]]) @ new)"
    and l: "list_all2 (converted rgb_to_hex old) ids new"
    by blast
  have "converted rgb_to_hex old uuid (JDict [(''name'', n), (''hex'', h)])"
    using n c h by (auto simp: converted_def)
  then have "list_all2 (converted rgb_to_hex old) (uuid # ids) (JDict [(''name'', n), (''hex'', h)] # new)"
    using l by simp
  moreover have "convert_colours rgb_to_hex old (uuid # ids) acc
      = Inr (acc @ JDict [(''name'', n), (''hex'', h)] # new)"
    using n c h r by simp
  ultimately show ?case by blast
qed

lemma colours_not_preferences [simp]: "colours r \<noteq> preferences r"
  by (simp add: path_defs)

lemma mapping_getitem2:
  assumes "mapping_or_absent d g"
  shows "(\<exists>v. getitem2 d g k = Inr v) \<or> getitem2 d g k = Inl KeyError"
proof (cases "getitem d g")
  case (Inl e)
  then show ?thesis using assms by (simp add: mapping_or_absent_def getitem2_def)
next
  case (Inr grp)
  then have "type_of grp = TDict" using assms by (simp add: mapping_or_absent_def)
  then show ?thesis using Inr by (cases grp) (auto simp: getitem2_def split: option.splits)
qed

lemma new_tray_value_Inr:
  assumes "tray_icon_ok d" and "\<forall>x. \<exists>p. gtk x = Inr p"
  shows "\<exists>tv. new_tray_value gtk d = Inr tv"
proof -
  have m: "mapping_or_absent d ''tray_icon''" using assms(1) by (simp add: tray_icon_ok_def)
  have b: "\<exists>p. discard_KeyError (builtin_icon v) = Inr p" if "type_of v \<noteq> TList" "type_of v \<noteq> TDict" for v
    using that by (cases v) (auto simp: builtin_icon_def discard_KeyError_def split: option.splits)
  show ?thesis
  proof (cases "getitem2 d ''tray_icon'' ''type''")
    case (Inl e)
    then have "e = KeyError" using mapping_getitem2 [OF m, of "''type''"] by auto
    then show ?thesis using Inl by (simp add: new_tray_value_def discard_KeyError_def)
  next
    case (Inr old_type)
    show ?thesis
    proof (cases "getitem2 d ''tray_icon'' ''value''")
      case (Inl e)
      then have "e = KeyError" using mapping_getitem2 [OF m, of "''value''"] by auto
      then show ?thesis using Inl Inr by (simp add: new_tray_value_def discard_KeyError_def)
    next
      case v: (Inr v)
      have "type_of v \<noteq> TList" "type_of v \<noteq> TDict" using assms(1) v by (simp_all add: tray_icon_ok_def)
      from b [OF this] obtain p where p: "discard_KeyError (builtin_icon v) = Inr p" by blast
      obtain q where q: "gtk v = Inr q" using assms(2) by blast
      show ?thesis using Inr v p q
        by (auto simp: new_tray_value_def discard_KeyError_def split: sum.splits)
    qed
  qed
qed

lemma old_live_preview_Inr:
  "mapping_or_absent d ''editor'' \<Longrightarrow> \<exists>lp. old_live_preview d = Inr lp"
  using mapping_getitem2 [of d "''editor''" "''live_preview''"]
  by (auto simp: old_live_preview_def)

lemma fix_editor_key_cases:
  "fix_editor_key d key = d \<or>
   (\<exists>grp b. getitem d ''editor'' = Inr grp \<and> type_of grp = TDict \<and>
      fix_editor_key d key = put2 ''editor'' key (JBool b) d)"
proof (cases "getitem d ''editor''")
  case (Inl e)
  then show ?thesis by (simp add: fix_editor_key_def getitem2_def)
next
  case (Inr grp)
  show ?thesis
  proof (cases "getitem grp key")
    case (Inl e)
    then show ?thesis using Inr by (simp add: fix_editor_key_def getitem2_def)
  next
    case v: (Inr v)
    have g: "type_of grp = TDict" using v by (rule getitem_Inr_type)
    show ?thesis using Inr v g
      by (auto simp: fix_editor_key_def getitem2_def setitem2_put2 [OF Inr g])
  qed
qed

lemma legacy_ok_cong:
  assumes "legacy_ok d" and "type_of d' = TDict"
    and "\<And>g. g \<noteq> ''config_version'' \<Longrightarrow> mapping_or_absent d g \<Longrightarrow> mapping_or_absent d' g"
    and "getitem d' ''tray_icon'' = getitem d ''tray_icon''"
  shows "legacy_ok d'"
  using assms
  by (auto simp: legacy_ok_def groups_ok_def tray_icon_ok_def getitem2_def default_entries_def)

lemma legacy_ok_type: "legacy_ok d \<Longrightarrow> type_of d = TDict"
  by (simp add: legacy_ok_def groups_ok_def)

lemma legacy_ok_fix_editor_key: "legacy_ok d \<Longrightarrow> legacy_ok (fix_editor_key d key)"
  using fix_editor_key_cases [of d key]
  by (auto intro!: legacy_ok_cong [of d] simp: legacy_ok_type mapping_or_absent_put2 getitem_put2)

lemma legacy_ok_put_cv: "legacy_ok d \<Longrightarrow> legacy_ok (put ''config_version'' v d)"
  by (auto intro!: legacy_ok_cong [of d] simp: legacy_ok_type mapping_or_absent_put getitem_put)

lemma legacy_ok_sort_keys: "legacy_ok d \<Longrightarrow> legacy_ok (sort_keys d)"
  by (auto simp: legacy_ok_def groups_ok_def tray_icon_ok_def getitem2_sort_keys split: sum.splits)

lemma mapping_or_absent_validated_list:
  assumes "groups_ok es d" and "entries_wf es" and "g2 \<noteq> ''config_version''" and "mapping_or_absent d g2"
  shows "mapping_or_absent (validated_list es d) g2"
  using assms
proof (induction es arbitrary: d)
  case Nil
  then show ?case by simp
next
  case (Cons e es)
  obtain g k t dv where e: "e = (g, k, t, dv)" by (cases e)
  have d: "type_of d = TDict" and m: "mapping_or_absent d g" and gc: "g \<noteq> ''config_version''"
    and t: "type_of dv = t"
    using Cons.prems by (auto simp: e groups_ok_def entries_wf_def)
  have g1: "groups_ok es (validated g k t dv d)" using Cons.prems by (simp add: e groups_ok_validated)
  have w1: "entries_wf es" using Cons.prems by (simp add: entries_wf_def)
  have "mapping_or_absent (validated g k t dv d) g2"
    using mapping_or_absent_validated [OF d m gc Cons.prems(3,4) t] .
  from Cons.IH [OF g1 w1 Cons.prems(3) this] show ?case by (simp add: e)
qed

lemma legacy_ok_validated_all: "legacy_ok d \<Longrightarrow> legacy_ok (validated_all d)"
proof -
  assume l: "legacy_ok d"
  then have g: "groups_ok default_entries d" by (simp add: legacy_ok_def)
  show ?thesis
  proof (rule legacy_ok_cong [OF l])
    show "type_of (validated_all d) = TDict" using g by (simp add: validated_all_def groups_ok_def)
  next
    fix g2 assume "g2 \<noteq> ''config_version''" "mapping_or_absent d g2"
    then show "mapping_or_absent (validated_all d) g2"
      using mapping_or_absent_validated_list [OF g default_entries_wf] by (simp add: validated_all_def)
  next
    have "''tray_icon'' \<notin> fst ` set default_entries" by (simp add: default_entries_def)
    then show "getitem (validated_all d) ''tray_icon'' = getitem d ''tray_icon''"
      using g getitem_validated_list [of d "''tray_icon''" default_entries]
      by (simp add: validated_all_def groups_ok_def)
  qed
qed

lemma unchanged_outside_refl [simp]: "unchanged_outside P s s"
  by (simp add: unchanged_outside_def)

lemma unchanged_outside_trans:
  "unchanged_outside P s s1 \<Longrightarrow> unchanged_outside Q s1 s2 \<Longrightarrow> unchanged_outside (P \<union> Q) s s2"
  by (auto simp: unchanged_outside_def)

lemma unchanged_outside_written [simp]: "unchanged_outside {p} s (written p d s)"
  by (simp add: unchanged_outside_def files_written_other)

lemma unchanged_outside_out [simp]: "unchanged_outside P s (s\<lparr>out := x\<rparr>)"
  by (simp add: unchanged_outside_def)

lemma step_lt5_ok:
  assumes "migratable r s"
  shows "\<exists>s'. step_lt5 r s = (Inr (), s') \<and> migratable r s' \<and> unchanged_outside {preferences r} s s'"
proof -
  from assms obtain f d where f: "files s (preferences r) = Some f" and rf: "readable f"
    and cf: "content f = Parsed d" and l: "legacy_ok d"
    by (auto simp: migratable_def)
  have g: "groups_ok default_entries d" using l by (simp add: legacy_ok_def)
  from load_prefs_parsed [OF f rf cf g] obtain s1 where
    ld: "load_file r (preferences r) s = (Inr (validated_all d), s1)"
    and s1: "s1 = s \<or> s1 = written (preferences r) (validated_all d) s"
    by blast
  define D2 where "D2 = foldl fix_editor_key (validated_all d) [''activate_on_save'', ''live_switch'', ''live_preview'']"
  define D3 where "D3 = put ''config_version'' (JInt 7) D2"
  have l2: "legacy_ok D2"
    using legacy_ok_validated_all [OF l] by (simp add: D2_def legacy_ok_fix_editor_key)
  have l3: "legacy_ok (sort_keys D3)"
    using l2 by (simp add: D3_def legacy_ok_put_cv legacy_ok_sort_keys)
  have "can_save s (preferences r)" using f rf by (simp add: can_save_def)
  then have c1: "can_save s1 (preferences r)" using s1 by (auto intro: can_save_written)
  have w: "written (preferences r) D3 s1 = written (preferences r) D3 s" using s1 by auto
  have run: "step_lt5 r s = (Inr (), written (preferences r) D3 s)"
    using save_file_eq [OF c1, of r D2] legacy_ok_type [OF l2] w
    by (simp add: step_lt5_def bind_def ld ret_def D2_def D3_def)
  have "migratable r (written (preferences r) D3 s)"
    using f rf cf l l3 by (auto simp: migratable_def written_def)
  then show ?thesis using run by simp
qed

lemma read_or_init_total:
  assumes "fp \<noteq> preferences r"
  shows "\<exists>c s'. read_or_init r fp s = (Inr c, s') \<and> unchanged_outside {fp, fp @ ''.bak''} s s' \<and>
           ((\<exists>f. files s fp = Some f \<and> readable f \<and> content f = Parsed c \<and> s' = s) \<or> c = JDict []) \<and>
           (dir_writable s fp \<and> dir_writable s (fp @ ''.bak'') \<longrightarrow> can_save s' fp)"
proof (cases "files s fp")
  case None
  then show ?thesis using assms
    by (cases "dir_writable s fp")
       (auto simp: read_or_init_def init_config_def save_file_def io_defs unchanged_outside_def
          can_save_def)
next
  case (Some f)
  show ?thesis
  proof (cases "readable f \<and> (\<exists>c. content f = Parsed c)")
    case True
    then show ?thesis using Some by (auto simp: read_or_init_parsed can_save_def)
  next
    case False
    then have bad: "\<not> readable f \<or> (\<exists>t. content f = Unparsable t)" by (cases "content f") auto
    show ?thesis
    proof (cases "dir_writable s fp \<and> dir_writable s (fp @ ''.bak'')")
      case True
      then show ?thesis using Some bad assms
        by (auto simp: read_or_init_def init_config_def save_file_def io_defs unchanged_outside_def
              can_save_def)
    next
      case False
      then show ?thesis using Some bad assms
        by (auto simp: read_or_init_def init_config_def save_file_def io_defs unchanged_outside_def
              can_save_def)
    qed
  qed
qed

lemma py_eq_empty_palette: "\<not> py_eq (JDict []) old_colour_json"
  by (simp add: old_colour_json_def)

lemma colours_bak_not_preferences [simp]: "colours r @ ''.bak'' \<noteq> preferences r"
  by (simp add: path_defs)

lemma migrate_colours_ok:
  assumes "colours_file_ok r rgb_to_hex s" and "dir_writable s (colours r)"
    and "dir_writable s (colours r @ ''.bak'')"
  shows "\<exists>s'. migrate_colours r rgb_to_hex s = (Inr (), s') \<and>
           unchanged_outside {colours r, colours r @ ''.bak''} s s'"
proof -
  from read_or_init_total [OF colours_not_preferences, of r s] obtain c s1 where
    rd: "load_file r (colours r) s = (Inr c, s1)"
    and u1: "unchanged_outside {colours r, colours r @ ''.bak''} s s1"
    and c: "(\<exists>f. files s (colours r) = Some f \<and> readable f \<and> content f = Parsed c \<and> s1 = s) \<or> c = JDict []"
    and cs1: "can_save s1 (colours r)"
    using assms(2,3) by (auto simp: load_file_other)
  have dw1: "dir_writable s1 (colours r)" using u1 assms(2) by (simp add: unchanged_outside_def)
  have ok: "colours_ok rgb_to_hex c"
    using c assms(1) by (auto simp: colours_file_ok_def colours_ok_def py_eq_empty_palette)
  show ?thesis
  proof (cases "py_eq c old_colour_json")
    case True
    then have "c \<noteq> JDict []" using py_eq_empty_palette by auto
    then obtain f where f: "files s (colours r) = Some f" and s1: "s1 = s" using c by auto
    have "migrate_colours r rgb_to_hex s = (Inr (), s\<lparr>files := (files s)(colours r := None)\<rparr>)"
      using True f assms(2) by (simp add: migrate_colours_def bind_def rd s1 os_remove_def)
    then show ?thesis by (simp add: unchanged_outside_def)
  next
    case False
    show ?thesis
    proof (cases "type_of c = TList")
      case True
      then have "migrate_colours r rgb_to_hex s = (Inr (), s1)"
        using False by (simp add: migrate_colours_def bind_def rd ret_def)
      then show ?thesis using u1 by simp
    next
      case nl: False
      from ok False nl obtain ids new where ids: "dict_keys c = Inr ids"
        and new: "convert_colours rgb_to_hex c (sort ids) [] = Inr new"
        by (auto simp: colours_ok_def split: sum.splits)
      have "migrate_colours r rgb_to_hex s = (Inr (), written (colours r) (JList new) s1)"
        using False nl ids new save_file_eq [OF cs1, of r "JList new"]
        by (simp add: migrate_colours_def bind_def rd ret_def lift_def)
      moreover have "unchanged_outside {colours r, colours r @ ''.bak''} s (written (colours r) (JList new) s1)"
        using unchanged_outside_trans [OF u1 unchanged_outside_written [of "colours r" s1 "JList new"]]
        by (simp add: insert_absorb)
      ultimately show ?thesis by blast
    qed
  qed
qed

lemma stamp_version_ok:
  assumes "files s (preferences r) = Some f" and "readable f" and "writable f"
    and "content f = Parsed c" and "groups_ok default_entries c"
  shows "\<exists>s' f' d'. stamp_version r s = (Inr (), s') \<and> files s' (preferences r) = Some f' \<and>
           content f' = Parsed d' \<and> getitem d' ''config_version'' = Inr (JInt 7)"
proof -
  from load_prefs_parsed [OF assms(1,2,4,5)] obtain s1 where
    ld: "load_file r (preferences r) s = (Inr (validated_all c), s1)"
    and s1: "s1 = s \<or> s1 = written (preferences r) (validated_all c) s"
    by blast
  have td: "type_of (validated_all c) = TDict" using assms(5) by (simp add: validated_all_def groups_ok_def)
  have "rw_file s (preferences r)" using assms(1-3) by (simp add: rw_file_def)
  then have rw1: "rw_file s1 (preferences r)" using s1 by (auto intro: rw_file_written)
  define D where "D = put ''config_version'' (JInt 7) (put ''config_version'' (JInt 7) (validated_all c))"
  have run: "stamp_version r s = (Inr (), (written (preferences r) D s1)\<lparr>out := out s1 @ [Success]\<rparr>)"
    using save_file_eq [OF rw_file_can_save [OF rw1], of r "put ''config_version'' (JInt 7) (validated_all c)"] td
    by (simp add: stamp_version_def bind_def ld lift_def setitem_put version_def stdout_def D_def)
  from files_written_rw [OF rw1, of D] obtain f' where
    "files (written (preferences r) D s1) (preferences r) = Some f'" and "content f' = Parsed (sort_keys D)"
    by blast
  moreover have "getitem (sort_keys D) ''config_version'' = Inr (JInt 7)"
    using td by (simp add: getitem_sort_keys D_def getitem_put)
  ultimately show ?thesis using run by auto
qed

lemma read_config_version_eq:
  "files s (preferences r) = Some f \<Longrightarrow> readable f \<Longrightarrow> content f = Parsed d \<Longrightarrow>
     getitem d ''config_version'' = Inr (JInt v) \<Longrightarrow> read_config_version r int_of_str s = (Inr v, s)"
  by (simp add: read_config_version_def io_defs)

lemma colours_file_ok_cong:
  "files s' (colours r) = files s (colours r) \<Longrightarrow> colours_file_ok r h s' = colours_file_ok r h s"
  by (simp add: colours_file_ok_def)

lemma groups_ok_new_data:
  "groups_ok default_entries (sort_keys (put ''config_version'' (JInt 7) (new_data lp tv)))"
  by (simp add: groups_ok_def default_entries_def)
     (simp add: mapping_or_absent_def getitem_put new_data_def)

lemma step_lt7_ok:
  assumes m: "migratable r s"
    and dp: "dir_writable s (preferences r)" and dc: "dir_writable s (colours r)"
    and dd: "dir_writable s (old_devicestate r)" and db: "dir_writable s (colours r @ ''.bak'')"
    and gtk: "\<forall>x. \<exists>p. gtk x = Inr p" and col: "colours_file_ok r h s"
  shows "\<exists>s' f c. step_lt7 r gtk h s = (Inr (), s') \<and> files s' (preferences r) = Some f \<and>
           readable f \<and> writable f \<and> content f = Parsed c \<and> groups_ok default_entries c"
proof -
  from m obtain f d where f: "files s (preferences r) = Some f" and rf: "readable f"
    and cf: "content f = Parsed d" and l: "legacy_ok d"
    by (auto simp: migratable_def)
  have g: "groups_ok default_entries d" using l by (simp add: legacy_ok_def)
  from load_prefs_parsed [OF f rf cf g] obtain s1 where
    ld: "load_file r (preferences r) s = (Inr (validated_all d), s1)"
    and s1: "s1 = s \<or> s1 = written (preferences r) (validated_all d) s"
    by blast
  have lD: "legacy_ok (validated_all d)" using l by (rule legacy_ok_validated_all)
  from new_tray_value_Inr [OF _ gtk] lD obtain tv where tv: "new_tray_value gtk (validated_all d) = Inr tv"
    by (auto simp: legacy_ok_def)
  from old_live_preview_Inr lD obtain lp where lp: "old_live_preview (validated_all d) = Inr lp"
    by (auto simp: legacy_ok_def)
  have u1: "unchanged_outside {preferences r} s s1" using s1 by auto
  obtain f1 where f1: "files s1 (preferences r) = Some f1"
    using s1 f by (cases "writable f") (auto simp: written_def)
  have dw1: "dir_writable s1 = dir_writable s" using u1 by (simp add: unchanged_outside_def)
  define ND where "ND = put ''config_version'' (JInt 7) (new_data lp tv)"
  define s2 where "s2 = s1\<lparr>files := (files s1)(preferences r := None)\<rparr>"
  define s3 where "s3 = s2\<lparr>files := (files s2)(preferences r \<mapsto>
                          \<lparr>content = Parsed (sort_keys ND), readable = True, writable = True\<rparr>)\<rparr>"
  define s4 where "s4 = (if files s3 (old_devicestate r) \<noteq> None
                         then s3\<lparr>files := (files s3)(old_devicestate r := None)\<rparr> else s3)"
  have rm: "os_remove (preferences r) s1 = (Inr (), s2)"
    using f1 dp dw1 by (simp add: os_remove_def s2_def)
  have c2: "can_save s2 (preferences r)" using dp dw1 by (simp add: can_save_def s2_def)
  have sv: "save_file r (preferences r) (new_data lp tv) s2 = (Inr (True, ND), s3)"
    using save_file_eq [OF c2, of r "new_data lp tv"]
    by (simp add: ND_def s3_def s2_def written_def new_data_def)
  have dv: "(if path_exists s3 (old_devicestate r) then os_remove (old_devicestate r) s3 else ret () s3)
              = (Inr (), s4)"
    using dd dw1 by (auto simp: path_exists_def os_remove_def ret_def s4_def s3_def s2_def)
  have fc4: "files s4 (colours r) = files s (colours r)"
    using u1 by (simp add: s4_def s3_def s2_def unchanged_outside_def path_defs)
  have dw4: "dir_writable s4 = dir_writable s"
    using dw1 by (simp add: s4_def s3_def s2_def)
  have fp4: "files s4 (preferences r) =
               Some \<lparr>content = Parsed (sort_keys ND), readable = True, writable = True\<rparr>"
    by (simp add: s4_def s3_def path_defs)
  from migrate_colours_ok [of r h s4] col dc db obtain s5 where
    mc: "migrate_colours r h s4 = (Inr (), s5)"
    and u5: "unchanged_outside {colours r, colours r @ ''.bak''} s4 s5"
    by (auto simp: colours_file_ok_cong [OF fc4] dw4)
  have fp5: "files s5 (preferences r) =
               Some \<lparr>content = Parsed (sort_keys ND), readable = True, writable = True\<rparr>"
  proof -
    have "preferences r \<noteq> colours r \<and> preferences r \<noteq> colours r @ ''.bak''"
      by (simp add: path_defs)
    then have "files s5 (preferences r) = files s4 (preferences r)"
      using u5 by (simp add: unchanged_outside_def)
    then show ?thesis using fp4 by simp
  qed
  have "step_lt7 r gtk h s = (Inr (), s5)"
    by (simp add: step_lt7_def bind_def ld lift_def tv lp rm sv dv mc)
  then show ?thesis using fp5 groups_ok_new_data [of lp tv] by (simp add: ND_def)
qed

text \<open>
  The six \<open>_validate\<close> calls are idempotent wherever they return: a second pass on the
  document that a first pass returned returns the same document and leaves the state as
  it found it. And they do return for a dict in which each default group is absent or a
  dict, in a state in which \<open>save_file\<close> can save the preferences.
\<close>

lemma validate_all_second_pass:
  assumes "validate_all r d s = (Inr d', s')"
  shows "validate_all r d' s' = (Inr d', s')" and "entries_ok default_entries d'"
proof -
  have "d' = validated_all d" and "groups_ok default_entries d"
    using validate_list_Inr [OF assms [unfolded validate_all_list] default_entries_wf]
    by (auto simp: validated_all_def default_entries_def)
  then show "entries_ok default_entries d'" by (simp add: entries_ok_validated_all)
  then show "validate_all r d' s' = (Inr d', s')"
    by (simp add: validate_all_list validate_list_noop)
qed

lemma validate_all_returns:
  assumes "groups_ok default_entries d" and "can_save s (preferences r)"
  shows "\<exists>d' s'. validate_all r d s = (Inr d', s')"
  using validate_list_eq [OF assms(1) default_entries_wf assms(2)]
  by (auto simp: validate_all_list)

text \<open>
  What the migration does when it runs to its end. A run of the step for versions below 7
  that returns leaves a fresh preferences file with the new layout; so whenever
  \<open>upgrade_old_pref\<close> returns from a version below 7 other than 6, the preferences file
  holds \<open>config_version\<close> 7, whatever the document was. And it does return on the documents
  described by \<open>legacy_ok\<close> when the directory allows its removals and creations; from
  version 6 it returns with the three files absent.
\<close>

lemma lift_Inr: "lift x s = (Inr y, s') \<Longrightarrow> x = Inr y \<and> s' = s"
  by (auto simp: lift_def)

lemma save_file_frame: "save_file r p d s = (x, s') \<Longrightarrow> unchanged_outside {p} s s'"
  by (auto simp: save_file_def io_defs unchanged_outside_def
           split: if_splits sum.splits option.splits prod.splits)

lemma save_file_created:
  "files s p = None \<Longrightarrow> save_file r p d s = (Inr (ok, d'), s') \<Longrightarrow>
     files s' p = Some \<lparr>content = Parsed (sort_keys d'), readable = True, writable = True\<rparr>"
  by (auto simp: save_file_def io_defs split: if_splits sum.splits option.splits prod.splits)

lemma os_remove_Inr: "os_remove p s = (Inr (), s') \<Longrightarrow> s' = s\<lparr>files := (files s)(p := None)\<rparr>"
  by (auto simp: os_remove_def split: option.splits if_splits)

lemma os_remove_frame: "os_remove p s = (x, s') \<Longrightarrow> unchanged_outside {p} s s'"
  by (auto simp: os_remove_def unchanged_outside_def split: option.splits if_splits)

lemma migrate_colours_frame:
  assumes "migrate_colours r h s = (x, s')"
  shows "unchanged_outside {colours r, colours r @ ''.bak''} s s'"
proof -
  from read_or_init_total [OF colours_not_preferences, of r s] obtain c s1 where
    rd: "load_file r (colours r) s = (Inr c, s1)"
    and u1: "unchanged_outside {colours r, colours r @ ''.bak''} s s1"
    by (auto simp: load_file_other)
  have "unchanged_outside {colours r} s1 s'"
  proof (cases "py_eq c old_colour_json")
    case True
    then have "os_remove (colours r) s1 = (x, s')"
      using assms by (simp add: migrate_colours_def bind_def rd)
    then show ?thesis by (rule os_remove_frame)
  next
    case False
    show ?thesis
    proof (cases "type_of c = TList")
      case True
      then show ?thesis using assms False by (simp add: migrate_colours_def bind_def rd ret_def)
    next
      case nl: False
      show ?thesis
      proof (cases "dict_keys c")
        case (Inl e)
        then show ?thesis using assms False nl
          by (simp add: migrate_colours_def bind_def rd lift_def)
      next
        case (Inr ids)
        show ?thesis
        proof (cases "convert_colours h c (sort ids) []")
          case (Inl e)
          then show ?thesis using assms False nl Inr
            by (simp add: migrate_colours_def bind_def rd lift_def)
        next
          case new: (Inr new)
          obtain y s2 where sv: "save_file r (colours r) (JList new) s1 = (y, s2)"
            by (cases "save_file r (colours r) (JList new) s1")
          then have "s' = s2" using assms False nl Inr new
            by (auto simp: migrate_colours_def bind_def rd lift_def ret_def split: sum.splits)
          then show ?thesis using save_file_frame [OF sv] by simp
        qed
      qed
    qed
  qed
  from unchanged_outside_trans [OF u1 this] show ?thesis by (simp add: insert_absorb)
qed

lemma step_lt7_success:
  assumes "step_lt7 r gtk h s = (Inr (), s')"
  shows "\<exists>lp tv. files s' (preferences r) =
           Some \<lparr>content = Parsed (sort_keys (put ''config_version'' (JInt 7) (new_data lp tv))),
                 readable = True, writable = True\<rparr>"
proof -
  from assms obtain s1 tv lp s2 ok nd s3 s4 where
    rm: "os_remove (preferences r) s1 = (Inr (), s2)"
    and sv: "save_file r (preferences r) (new_data lp tv) s2 = (Inr (ok, nd), s3)"
    and dv: "(if path_exists s3 (old_devicestate r) then os_remove (old_devicestate r) s3 else ret () s3)
               = (Inr (), s4)"
    and mc: "migrate_colours r h s4 = (Inr (), s')"
    unfolding step_lt7_def by (auto dest!: bind_Inr lift_Inr)
  have "files s2 (preferences r) = None" using os_remove_Inr [OF rm] by simp
  from save_file_created [OF this sv] save_file_prefs_Inr [OF sv]
  have f3: "files s3 (preferences r) =
           Some \<lparr>content = Parsed (sort_keys (put ''config_version'' (JInt 7) (new_data lp tv))),
                 readable = True, writable = True\<rparr>"
    by simp
  have "files s4 (preferences r) = files s3 (preferences r)"
    using dv by (auto simp: ret_def path_defs dest!: os_remove_Inr split: if_splits)
  moreover have "files s' (preferences r) = files s4 (preferences r)"
    using migrate_colours_frame [OF mc] by (simp add: unchanged_outside_def path_defs)
  ultimately show ?thesis using f3 by auto
qed

lemma upgrade_old_pref_success:
  assumes f: "files s (preferences r) = Some f" and rf: "readable f" and cf: "content f = Parsed d"
    and v: "getitem d ''config_version'' = Inr (JInt v)" and v7: "v < 7" and v6: "v \<noteq> 6"
    and run: "upgrade_old_pref r int_of_str get_path_from_gtk_icon_name rgb_to_hex s = (Inr (), s')"
  shows "\<exists>f' d'. files s' (preferences r) = Some f' \<and> content f' = Parsed d' \<and>
           getitem d' ''config_version'' = Inr (JInt 7)"
proof -
  have rc: "read_config_version r int_of_str s = (Inr v, s)"
    using read_config_version_eq [OF f rf cf v] .
  from run v7 v6 have "bind (stdout Action) (\<lambda>_.
          bind (if v < 5 then step_lt5 r else ret ()) (\<lambda>_.
          bind (step_lt7 r get_path_from_gtk_icon_name rgb_to_hex) (\<lambda>_. stamp_version r))) s
        = (Inr (), s')"
    by (simp add: upgrade_old_pref_def rc version_def)
  then obtain s5 s7 where
    st7: "step_lt7 r get_path_from_gtk_icon_name rgb_to_hex s5 = (Inr (), s7)"
    and st: "stamp_version r s7 = (Inr (), s')"
    by (auto dest!: bind_Inr)
  from step_lt7_success [OF st7] obtain lp tv where
    f7: "files s7 (preferences r) =
           Some \<lparr>content = Parsed (sort_keys (put ''config_version'' (JInt 7) (new_data lp tv))),
                 readable = True, writable = True\<rparr>"
    by blast
  from stamp_version_ok [OF f7 _ _ _ groups_ok_new_data [of lp tv]] obtain s'' f' d' where
    "stamp_version r s7 = (Inr (), s'')" and "files s'' (preferences r) = Some f'"
    and "content f' = Parsed d'" and "getitem d' ''config_version'' = Inr (JInt 7)"
    by auto
  then show ?thesis using st by auto
qed

lemma upgrade_old_pref_migrates:
  assumes f: "files s (preferences r) = Some f" and rf: "readable f" and cf: "content f = Parsed d"
    and v: "getitem d ''config_version'' = Inr (JInt v)" and v7: "v < 7"
    and dp: "dir_writable s (preferences r)" and dc: "dir_writable s (colours r)"
    and dd: "dir_writable s (old_devicestate r)" and db: "dir_writable s (colours r @ ''.bak'')"
  shows "(v \<noteq> 6 \<and> legacy_ok d \<and> (\<forall>x. \<exists>p. get_path_from_gtk_icon_name x = Inr p) \<and>
          colours_file_ok r rgb_to_hex s \<longrightarrow>
            (\<exists>s' f' d'. upgrade_old_pref r int_of_str get_path_from_gtk_icon_name rgb_to_hex s = (Inr (), s') \<and>
               files s' (preferences r) = Some f' \<and> content f' = Parsed d' \<and>
               getitem d' ''config_version'' = Inr (JInt 7)))
       \<and> (v = 6 \<longrightarrow>
            (\<exists>s'. upgrade_old_pref r int_of_str get_path_from_gtk_icon_name rgb_to_hex s = (Inr (), s') \<and>
               files s' (preferences r) = None \<and> files s' (colours r) = None \<and>
               files s' (old_devicestate r) = None \<and> out s' = out s @ [Action, Warning]))"
proof (intro conjI impI)
  assume "v = 6"
  then have rc: "read_config_version r int_of_str s = (Inr 6, s)"
    using read_config_version_eq [OF f rf cf v] by simp
  show "\<exists>s'. upgrade_old_pref r int_of_str get_path_from_gtk_icon_name rgb_to_hex s = (Inr (), s') \<and>
               files s' (preferences r) = None \<and> files s' (colours r) = None \<and>
               files s' (old_devicestate r) = None \<and> out s' = out s @ [Action, Warning]"
    using f dp dc dd
    by (cases "files s (colours r)"; cases "files s (old_devicestate r)")
       (simp_all add: upgrade_old_pref_def rc version_def step_eq6_def io_defs path_defs)
next
  assume a: "v \<noteq> 6 \<and> legacy_ok d \<and> (\<forall>x. \<exists>p. get_path_from_gtk_icon_name x = Inr p) \<and>
          colours_file_ok r rgb_to_hex s"
  have rc: "read_config_version r int_of_str s = (Inr v, s)"
    using read_config_version_eq [OF f rf cf v] .
  define s0 where "s0 = s\<lparr>out := out s @ [Action]\<rparr>"
  have m0: "migratable r s0" using f rf cf a by (auto simp: migratable_def s0_def)
  obtain s5 where
    st5: "(if v < 5 then step_lt5 r else ret ()) s0 = (Inr (), s5)"
    and m5: "migratable r s5" and u5: "unchanged_outside {preferences r} s0 s5"
    using step_lt5_ok [OF m0] m0 by (cases "v < 5") (auto simp: ret_def)
  have dw5: "dir_writable s5 = dir_writable s" using u5 by (simp add: unchanged_outside_def s0_def)
  have fc5: "files s5 (colours r) = files s (colours r)"
    using u5 by (simp add: unchanged_outside_def s0_def)
  have col5: "colours_file_ok r rgb_to_hex s5" using a by (simp add: colours_file_ok_cong [OF fc5])
  from step_lt7_ok [OF m5 _ _ _ _ _ col5, of get_path_from_gtk_icon_name] a dp dc dd db obtain s7 f7 c7 where
    st7: "step_lt7 r get_path_from_gtk_icon_name rgb_to_hex s5 = (Inr (), s7)"
    and f7: "files s7 (preferences r) = Some f7" "readable f7" "writable f7" "content f7 = Parsed c7"
      "groups_ok default_entries c7"
    by (auto simp: dw5)
  from stamp_version_ok [OF f7] obtain s' f' d' where
    st: "stamp_version r s7 = (Inr (), s')" and r: "files s' (preferences r) = Some f'"
      "content f' = Parsed d'" "getitem d' ''config_version'' = Inr (JInt 7)"
    by blast
  have "upgrade_old_pref r int_of_str get_path_from_gtk_icon_name rgb_to_hex s = (Inr (), s')"
    using a v7 st5 st7 st
    by (simp add: upgrade_old_pref_def rc version_def bind_def stdout_def s0_def)
  then show "\<exists>s' f' d'. upgrade_old_pref r int_of_str get_path_from_gtk_icon_name rgb_to_hex s = (Inr (), s') \<and>
               files s' (preferences r) = Some f' \<and> content f' = Parsed d' \<and>
               getitem d' ''config_version'' = Inr (JInt 7)"
    using r by blast
qed

lemma upgrade_old_pref_migrates_example:
  "(legacy_ok legacy_preferences
    \<and> colours_file_ok ''r'' Inr (fs_of [(preferences ''r'', Parsed legacy_preferences)])
    \<and> (\<exists>s' f' d'. upgrade_old_pref ''r'' ascii_int Inr Inr (fs_of [(preferences ''r'', Parsed legacy_preferences)])
                     = (Inr (), s') \<and>
          files s' (preferences ''r'') = Some f' \<and> content f' = Parsed d' \<and>
          getitem d' ''config_version'' = Inr (JInt 7)))
   \<and> (\<exists>s'. upgrade_old_pref ''r'' ascii_int Inr Inr
              (fs_of [(preferences ''r'', Parsed (JDict [(''config_version'', JInt 6)])),
                      (colours ''r'', Parsed old_colour_json)]) = (Inr (), s') \<and>
          files s' (preferences ''r'') = None \<and> files s' (colours ''r'') = None \<and>
          files s' (old_devicestate ''r'') = None \<and> out s' = [Action, Warning])"
proof -
  let ?s1 = "fs_of [(preferences ''r'', Parsed legacy_preferences)]"
  let ?s2 = "fs_of [(preferences ''r'', Parsed (JDict [(''config_version'', JInt 6)])),
                    (colours ''r'', Parsed old_colour_json)]"
  have l: "legacy_ok legacy_preferences"
    by (simp add: legacy_ok_def groups_ok_def default_entries_def tray_icon_ok_def
          mapping_or_absent_def getitem2_def legacy_preferences_def)
  have c: "colours_file_ok ''r'' Inr ?s1"
    by (simp add: colours_file_ok_def fs_of_def path_defs)
  have g: "\<forall>x::json. \<exists>p. (Inr x :: exn + json) = Inr p" by simp
  have t1: "\<exists>s' f' d'. upgrade_old_pref ''r'' ascii_int Inr Inr ?s1 = (Inr (), s') \<and>
          files s' (preferences ''r'') = Some f' \<and> content f' = Parsed d' \<and>
          getitem d' ''config_version'' = Inr (JInt 7)"
    using upgrade_old_pref_migrates [of ?s1 "''r''"
        "\<lparr>content = Parsed legacy_preferences, readable = True, writable = True\<rparr>"
        legacy_preferences 4 Inr Inr ascii_int] l c g
    by (simp add: fs_of_def legacy_preferences_def)
  have t2: "\<exists>s'. upgrade_old_pref ''r'' ascii_int Inr Inr ?s2 = (Inr (), s') \<and>
          files s' (preferences ''r'') = None \<and> files s' (colours ''r'') = None \<and>
          files s' (old_devicestate ''r'') = None \<and> out s' = [Action, Warning]"
    using upgrade_old_pref_migrates [of ?s2 "''r''"
        "\<lparr>content = Parsed (JDict [(''config_version'', JInt 6)]), readable = True, writable = True\<rparr>"
        "JDict [(''config_version'', JInt 6)]" 6 Inr Inr ascii_int]
    by (simp add: fs_of_def)
  from l c t1 t2 show ?thesis by blast
qed

section \<open>The claims\<close>

text \<open>
  C3. When the preferences file holds a document whose \<open>config_version\<close> is an integer
  greater than the current version 7, \<open>upgrade_old_pref\<close> returns normally and changes
  nothing but the diagnostic output, to which it adds the five lines of the warning: every
  file, the preferences and the colours file among them, is as it was.
\<close>

theorem upgrade_forward_version_guard:
  assumes "files s (preferences r) = Some f" and "readable f" and "content f = Parsed data"
    and "getitem data ''config_version'' = Inr (JInt v)" and "v > version"
  shows "upgrade_old_pref r int_of_str get_path_from_gtk_icon_name rgb_to_hex s
           = (Inr (), s\<lparr>out := out s @ [Error, Error, Error, Error, Plain]\<rparr>)"
  using assms by (simp add: upgrade_old_pref_def read_config_version_def io_defs)

theorem upgrade_forward_version_guard_witness:
  "upgrade_old_pref ''r'' ascii_int Inr Inr
       (fs_of [(preferences ''r'', Parsed (JDict [(''config_version'', JInt 8)])),
               (colours ''r'', Parsed (JList []))])
     = (Inr (), fs_of [(preferences ''r'', Parsed (JDict [(''config_version'', JInt 8)])),
                       (colours ''r'', Parsed (JList []))]
                  \<lparr>out := [Error, Error, Error, Error, Plain]\<rparr>)"
  using upgrade_forward_version_guard [of
      "fs_of [(preferences ''r'', Parsed (JDict [(''config_version'', JInt 8)])),
              (colours ''r'', Parsed (JList []))]"
      "''r''" "\<lparr>content = Parsed (JDict [(''config_version'', JInt 8)]), readable = True, writable = True\<rparr>"
      "JDict [(''config_version'', JInt 8)]" 8 ascii_int Inr Inr]
  by (simp add: fs_of_def version_def path_defs)

text \<open>
  C5, at the input where the code departs from it: the target does not exist and its
  directory is read-only. \<open>save_file\<close> then raises \<open>OSError\<close> from
  \<open>open(filepath, "w")\<close> instead of returning \<open>False\<close>. (For a target that exists and
  is not writable it does return \<open>False\<close> and writes nothing: lemma
  \<open>save_file_not_writable\<close>.)
\<close>

theorem save_file_raises_on_create:
  "save_file ''r'' (colours ''r'') (JList []) read_only_fs = (Inl OSError, read_only_fs)"
  by (simp add: run_defs read_only_fs_def)

text \<open>
  C6. \<open>get\<close> loads the document and returns \<open>document[group][item]\<close>, whatever the
  state and the arguments: it raises what \<open>load_file\<close> raises; otherwise it raises what
  indexing the loaded document with the group raises, and otherwise its result is what
  indexing the group with the item gives. Indexing a dict with an absent key raises
  \<open>KeyError\<close>, so an absent group or item is an error. The default argument plays no part:
  two calls that differ only in it have the same result and leave the same state.
\<close>

theorem get_ignores_default:
  "get r group' item default_value filepath s = get r group' item other_default filepath s
   \<and> get r group' item default_value filepath s
       = (case load_file r (case filepath of None \<Rightarrow> preferences r | Some p \<Rightarrow> p) s of
            (Inl e, s') \<Rightarrow> (Inl e, s')
          | (Inr data, s') \<Rightarrow>
              (case getitem data group' of
                 Inl e \<Rightarrow> (Inl e, s')
               | Inr grp \<Rightarrow> (getitem grp item, s')))
   \<and> getitem (JDict kvs) key = (case map_of kvs key of None \<Rightarrow> Inl KeyError | Some v \<Rightarrow> Inr v)"
  by (simp add: get_def Let_def bind_def lift_def getitem2_def split: prod.splits sum.splits)

theorem get_ignores_default_witness:
  "get ''r'' ''tray'' ''size'' (JInt 22) (Some ''x.json'')
       (fs_of [(''x.json'', Parsed (JDict [(''tray'', JDict [(''icon'', JStr ''a.svg'')])]))])
     = (Inl KeyError, fs_of [(''x.json'', Parsed (JDict [(''tray'', JDict [(''icon'', JStr ''a.svg'')])]))])
   \<and> get ''r'' ''tray'' ''size'' (JInt 22) (Some ''x.json'')
       (fs_of [(''x.json'', Parsed (JDict [(''tray'', JDict [(''icon'', JStr ''a.svg'')])]))])
     = get ''r'' ''tray'' ''size'' (JStr ''none'') (Some ''x.json'')
       (fs_of [(''x.json'', Parsed (JDict [(''tray'', JDict [(''icon'', JStr ''a.svg'')])]))])"
proof -
  have run: "load_file ''r'' ''x.json''
       (fs_of [(''x.json'', Parsed (JDict [(''tray'', JDict [(''icon'', JStr ''a.svg'')])]))])
     = (Inr (JDict [(''tray'', JDict [(''icon'', JStr ''a.svg'')])]),
        fs_of [(''x.json'', Parsed (JDict [(''tray'', JDict [(''icon'', JStr ''a.svg'')])]))])"
    by (simp add: run_defs)
  note h = get_ignores_default [of "''r''" "''tray''" "''size''" "JInt 22" "Some ''x.json''"
      "fs_of [(''x.json'', Parsed (JDict [(''tray'', JDict [(''icon'', JStr ''a.svg'')])]))]"
      "JStr ''none''"]
  have a: "get ''r'' ''tray'' ''size'' (JInt 22) (Some ''x.json'')
       (fs_of [(''x.json'', Parsed (JDict [(''tray'', JDict [(''icon'', JStr ''a.svg'')])]))])
     = (Inl KeyError, fs_of [(''x.json'', Parsed (JDict [(''tray'', JDict [(''icon'', JStr ''a.svg'')])]))])"
    using conjunct1 [OF conjunct2 [OF h]] by (simp add: run)
  show ?thesis using a conjunct1 [OF h] by blast
qed

text \<open>
  C9. When \<open>save_file\<close> returns, the object passed as \<open>newdata\<close> is, for the preferences
  path, the caller's object after \<open>newdata["config_version"] = 7\<close>, so it holds
  \<open>config_version\<close> 7 whatever it held before; for any other path it is the caller's
  object unchanged.
\<close>

theorem save_file_mutates_argument:
  "save_file r filepath newdata s = (Inr (ok, newdata'), s') \<Longrightarrow>
     (if filepath = preferences r
      then setitem newdata ''config_version'' (JInt 7) = Inr newdata' \<and>
           getitem newdata' ''config_version'' = Inr (JInt 7)
      else newdata' = newdata)"
  by (auto simp: save_file_def io_defs version_def getitem_setitem
           split: if_splits sum.splits prod.splits option.splits)

theorem save_file_mutates_argument_witness:
  "save_file ''r'' (preferences ''r'') (JDict [(''config_version'', JInt 3)]) (fs_of [])
     = (Inr (True, JDict [(''config_version'', JInt 7)]),
        fs_of [(preferences ''r'', Parsed (JDict [(''config_version'', JInt 7)]))])
   \<and> getitem (JDict [(''config_version'', JInt 7)]) ''config_version'' = Inr (JInt 7)"
proof -
  have run: "save_file ''r'' (preferences ''r'') (JDict [(''config_version'', JInt 3)]) (fs_of [])
     = (Inr (True, JDict [(''config_version'', JInt 7)]),
        fs_of [(preferences ''r'', Parsed (JDict [(''config_version'', JInt 7)]))])"
    by (simp add: run_defs)
  from save_file_mutates_argument [OF run] run show ?thesis by simp
qed

text \<open>
  C10, at an input where the code departs from it: the preferences file holds the JSON
  document \<open>{"tray": 5}\<close>. \<open>_validate\<close> catches \<open>KeyError\<close> only, so indexing the number
  raises \<open>TypeError\<close> out of \<open>load_file\<close>, and out of \<open>exists\<close> and \<open>get\<close>, which call it
  outside their own \<open>try\<close>.
\<close>

theorem load_file_raises_on_non_mapping_group:
  "fst (load_file ''r'' (preferences ''r'')
          (fs_of [(preferences ''r'', Parsed (JDict [(''tray'', JInt 5)]))])) = Inl TypeError
   \<and> fst (exists ''r'' ''tray'' ''icon'' None
          (fs_of [(preferences ''r'', Parsed (JDict [(''tray'', JInt 5)]))])) = Inl TypeError
   \<and> fst (get ''r'' ''tray'' ''icon'' (JStr []) None
          (fs_of [(preferences ''r'', Parsed (JDict [(''tray'', JInt 5)]))])) = Inl TypeError"
  by (simp add: exists_def get_def run_defs)

text \<open>
  C8, at an input where the code departs from it: the document \<open>{"tray": 5}\<close>, read from
  the preferences file, lacks every default entry and holds a number where the group
  \<open>tray\<close> should be. The pass repairs \<open>colours\<close>, \<open>effects\<close> and \<open>general\<close>, then indexes
  the number and raises \<open>TypeError\<close> past \<open>except KeyError\<close>: it produces no document, so
  there is none for a second pass. (Where a pass does return a document, the second pass
  changes nothing: lemma \<open>validate_all_second_pass\<close>.)
\<close>

theorem validate_all_raises_on_non_mapping_group:
  "fst (validate_all ''r'' (JDict [(''tray'', JInt 5)])
          (fs_of [(preferences ''r'', Parsed (JDict [(''tray'', JInt 5)]))])) = Inl TypeError"
  by (simp add: run_defs)

text \<open>
  C4, as the code has it. Let the file at a path hold text that \<open>json.load\<close> rejects, and
  let the directory allow the rename to the \<open>.bak\<close> path and the creation of the new file.
  Then \<open>load_file\<close> returns normally, the original file is at the path with \<open>.bak\<close>
  appended, and: for a path other than the preferences path the result is the empty
  document and the path holds the empty document; for the preferences path the result is
  the document of the six default entries with \<open>config_version\<close> 7, and the path holds that
  document.
\<close>

theorem load_file_recovers_corrupt_file:
  assumes "files s fp = Some f" and "content f = Unparsable t"
    and "dir_writable s fp" and "dir_writable s (fp @ ''.bak'')"
  shows "\<exists>s'. load_file r fp s = (Inr (if fp = preferences r then default_document else JDict []), s')
           \<and> files s' (fp @ ''.bak'') = Some f
           \<and> files s' fp = Some \<lparr>content = Parsed (if fp = preferences r then default_document else JDict []),
                                  readable = True, writable = True\<rparr>"
proof (cases "fp = preferences r")
  case False
  then show ?thesis
    using read_or_init_corrupt [OF assms, of r] by (simp add: load_file_other)
next
  case True
  obtain s1 where r1: "read_or_init r (preferences r) s = (Inr (JDict []), s1)"
    and f1: "files s1 (preferences r) =
               Some \<lparr>content = Parsed (JDict [(''config_version'', JInt 7)]), readable = True, writable = True\<rparr>"
    and b1: "files s1 (preferences r @ ''.bak'') = Some f"
    using read_or_init_corrupt [OF assms, of r] True by simp
  have rw1: "rw_file s1 (preferences r)" using f1 by (simp add: rw_file_def)
  have "files (written (preferences r) default_document s1) (preferences r) =
          Some \<lparr>content = Parsed default_document, readable = True, writable = True\<rparr>"
    using f1 by (simp add: written_def sort_keys_default_document)
  moreover have "files (written (preferences r) default_document s1) (preferences r @ ''.bak'') = Some f"
    using b1 by (simp add: files_written_other)
  ultimately show ?thesis
    using load_prefs_fresh [OF r1 rw1] True by simp
qed

theorem load_file_recovers_corrupt_file_witness:
  "\<exists>s'. load_file ''r'' ''r/colours.json'' (fs_of [(''r/colours.json'', Unparsable ''[1,'')])
           = (Inr (JDict []), s')
       \<and> files s' ''r/colours.json.bak''
           = Some \<lparr>content = Unparsable ''[1,'', readable = True, writable = True\<rparr>
       \<and> files s' ''r/colours.json''
           = Some \<lparr>content = Parsed (JDict []), readable = True, writable = True\<rparr>"
  using load_file_recovers_corrupt_file [of "fs_of [(''r/colours.json'', Unparsable ''[1,'')]"
      "''r/colours.json''" "\<lparr>content = Unparsable ''[1,'', readable = True, writable = True\<rparr>"
      "''[1,''" "''r''"]
  by (simp add: fs_of_def preferences_def)

text \<open>
  C4 as stated fails for the preferences path: with unparsable text in the preferences
  file, \<open>load_file\<close> does not return the empty document.
\<close>

theorem load_file_corrupt_preferences_counterexample:
  "fst (load_file ''r'' (preferences ''r'') (fs_of [(preferences ''r'', Unparsable ''[1,'')]))
     \<noteq> Inr (JDict [])"
  by (simp add: run_defs)

text \<open>
  C1, as the code has it. In a state with usable preferences,
  \<open>set("tray", "icon", "true")\<close> returns and the preferences file then holds the boolean
  \<open>True\<close> at \<open>tray.icon\<close>; the \<open>get("tray", "icon")\<close> that follows returns the default
  string \<open>"ui/img/tray/light/polychromatic.svg"\<close>, because the validation in \<open>load_file\<close>
  replaces a \<open>tray.icon\<close> that is not a string.
\<close>

theorem set_true_then_get_tray_icon:
  assumes "usable_preferences r s"
  shows "\<exists>s1 s2 f d. set' r ''tray'' ''icon'' (JStr ''true'') None s = (Inr (), s1)
           \<and> files s1 (preferences r) = Some f \<and> content f = Parsed d
           \<and> getitem2 d ''tray'' ''icon'' = Inr (JBool True)
           \<and> get r ''tray'' ''icon'' default_value None s1
                = (Inr (JStr ''ui/img/tray/light/polychromatic.svg''), s2)"
proof -
  from load_prefs_ok [OF assms] obtain D sa where
    l: "load_file r (preferences r) s = (Inr D, sa)" and ok: "entries_ok default_entries D"
    and td: "type_of D = TDict" and rw: "rw_file sa (preferences r)"
    by blast
  have "entry_ok D ''tray'' ''icon'' TStr" using ok by (simp add: entries_ok_def default_entries_def)
  then obtain grp where gt: "getitem D ''tray'' = Inr grp" and tg: "type_of grp = TDict"
    using entry_ok_group by blast
  define D3 where "D3 = put ''config_version'' (JInt 7) (put2 ''tray'' ''icon'' (JBool True) D)"
  define s1 where "s1 = written (preferences r) D3 sa"
  have sv: "save_file r (preferences r) (put2 ''tray'' ''icon'' (JBool True) D) sa
              = (Inr ((case files sa (preferences r) of Some f \<Rightarrow> writable f | None \<Rightarrow> True), D3), s1)"
    using save_file_eq [OF rw_file_can_save [OF rw], of r "put2 ''tray'' ''icon'' (JBool True) D"] td
    by (simp add: D3_def s1_def)
  have set: "set' r ''tray'' ''icon'' (JStr ''true'') None s = (Inr (), s1)"
    by (simp add: set'_def Let_def bind_def l lift_def ret_def try_except_def gt setitem2_put2 [OF gt tg] sv)
  from files_written_rw [OF rw, of D3] obtain f where
    f: "files s1 (preferences r) = Some f" and rf: "readable f" and cf: "content f = Parsed (sort_keys D3)"
    by (auto simp: s1_def)
  have v: "getitem2 (sort_keys D3) ''tray'' ''icon'' = Inr (JBool True)"
    using td by (simp add: getitem2_sort_keys D3_def getitem2_put getitem2_put2 [OF gt tg])
  have "mapping_or_absent D3 g" if "(g, k, t, dv) \<in> set default_entries" for g k t dv
  proof -
    have "entry_ok D g k t" using ok that by (auto simp: entries_ok_def)
    then have "mapping_or_absent D g" by (rule entry_ok_mapping)
    moreover have "g \<noteq> ''config_version''" using that default_entries_wf by (auto simp: entries_wf_def)
    ultimately show ?thesis
      using td by (simp add: D3_def mapping_or_absent_put mapping_or_absent_put2 [OF gt tg])
  qed
  then have g3: "groups_ok default_entries (sort_keys D3)"
    using td by (auto simp: groups_ok_def D3_def)
  from load_prefs_parsed [OF f rf cf g3] obtain s2 where
    l2: "load_file r (preferences r) s1 = (Inr (validated_all (sort_keys D3)), s2)"
    by blast
  have "\<not> entry_ok (sort_keys D3) ''tray'' ''icon'' TStr" using v by (simp add: entry_ok_def)
  then have "getitem2 (validated_all (sort_keys D3)) ''tray'' ''icon''
          = Inr (JStr ''ui/img/tray/light/polychromatic.svg'')"
    using getitem2_validated_list_mem [OF g3 default_entries_wf default_entries_distinct tray_icon_entry]
    by (simp add: validated_all_def)
  then have "get r ''tray'' ''icon'' default_value None s1
                = (Inr (JStr ''ui/img/tray/light/polychromatic.svg''), s2)"
    by (simp add: get_def Let_def bind_def l2 lift_def)
  then show ?thesis using set f cf v by blast
qed

theorem set_true_then_get_tray_icon_witness:
  "usable_preferences ''r'' (fs_of [])
   \<and> (\<exists>s1 s2 f d. set' ''r'' ''tray'' ''icon'' (JStr ''true'') None (fs_of []) = (Inr (), s1)
           \<and> files s1 (preferences ''r'') = Some f \<and> content f = Parsed d
           \<and> getitem2 d ''tray'' ''icon'' = Inr (JBool True)
           \<and> get ''r'' ''tray'' ''icon'' (JStr []) None s1
                = (Inr (JStr ''ui/img/tray/light/polychromatic.svg''), s2))"
proof -
  have u: "usable_preferences ''r'' (fs_of [])"
    by (simp add: usable_preferences_def fs_of_def)
  from set_true_then_get_tray_icon [OF u, of "JStr []"] u show ?thesis by blast
qed

text \<open>
  C1 as stated fails: starting without a preferences file in a writable directory,
  \<open>get("tray", "icon")\<close> after \<open>set("tray", "icon", "true")\<close> does not return \<open>True\<close>.
\<close>

theorem set_true_then_get_tray_icon_counterexample:
  "fst (get ''r'' ''tray'' ''icon'' (JStr []) None
          (snd (set' ''r'' ''tray'' ''icon'' (JStr ''true'') None (fs_of []))))
     \<noteq> Inr (JBool True)"
  by (simp add: set'_def get_def run_defs)

text \<open>
  C7, as the code has it. Let the colours file be readable and writable and hold a dict
  that is not equal to the legacy palette, each of whose entries has a \<open>name\<close> and a \<open>col\<close>
  that \<open>rgb_to_hex\<close> accepts. Then the colours part of the step for versions below 7
  overwrites the colours file with the list of the \<open>{name, hex}\<close> entries of the colours,
  taken in the order that \<open>old_ids.sort()\<close> gives: the IDs compared as strings.
\<close>

theorem migrate_colours_converts_mapping:
  assumes "files s (colours r) = Some f" and "readable f" and "writable f"
    and "content f = Parsed (JDict kvs)"
    and "\<not> py_eq (JDict kvs) old_colour_json"
    and "\<forall>uuid \<in> set (map fst kvs). \<exists>entry. converted rgb_to_hex (JDict kvs) uuid entry"
  shows "\<exists>new_colours.
           list_all2 (converted rgb_to_hex (JDict kvs)) (sort (map fst kvs)) new_colours
           \<and> migrate_colours r rgb_to_hex s
               = (Inr (), s\<lparr>files := (files s)(colours r \<mapsto> f\<lparr>content := Parsed (sort_keys (JList new_colours))\<rparr>)\<rparr>)"
proof -
  have "\<forall>uuid \<in> set (sort (map fst kvs)). \<exists>entry. converted rgb_to_hex (JDict kvs) uuid entry"
    using assms(6) by simp
  from convert_colours_acc [OF this, of "[]"] obtain new where
    c: "convert_colours rgb_to_hex (JDict kvs) (sort (map fst kvs)) [] = Inr new"
    and l: "list_all2 (converted rgb_to_hex (JDict kvs)) (sort (map fst kvs)) new"
    by auto
  have ld: "load_file r (colours r) s = (Inr (JDict kvs), s)"
    using read_or_init_parsed [OF assms(1,2,4)] by (simp add: load_file_other)
  have cs: "can_save s (colours r)" using assms(1,2) by (simp add: can_save_def)
  have "migrate_colours r rgb_to_hex s
      = (Inr (), s\<lparr>files := (files s)(colours r \<mapsto> f\<lparr>content := Parsed (sort_keys (JList new))\<rparr>)\<rparr>)"
    using assms(1,3,5) c
    by (simp add: migrate_colours_def bind_def ld lift_def ret_def save_file_eq [OF cs] written_def)
  then show ?thesis using l by blast
qed

theorem migrate_colours_converts_mapping_witness:
  "\<exists>new_colours.
      list_all2 (converted (\<lambda>c. Inr (JStr ''#hex'')) two_colours) (sort (map fst
         [(''2'', JDict [(''name'', JStr ''Red''), (''col'', JList [JInt 255, JInt 0, JInt 0])]),
          (''10'', JDict [(''name'', JStr ''Teal''), (''col'', JList [JInt 0, JInt 128, JInt 128])])])) new_colours
      \<and> migrate_colours ''r'' (\<lambda>c. Inr (JStr ''#hex'')) (fs_of [(colours ''r'', Parsed two_colours)])
          = (Inr (), (fs_of [(colours ''r'', Parsed two_colours)])
                \<lparr>files := (files (fs_of [(colours ''r'', Parsed two_colours)]))
                   (colours ''r'' \<mapsto> \<lparr>content = Parsed two_colours, readable = True, writable = True\<rparr>
                        \<lparr>content := Parsed (sort_keys (JList new_colours))\<rparr>)\<rparr>)"
  using migrate_colours_converts_mapping [of "fs_of [(colours ''r'', Parsed two_colours)]" "''r''"
      "\<lparr>content = Parsed two_colours, readable = True, writable = True\<rparr>"
      "[(''2'', JDict [(''name'', JStr ''Red''), (''col'', JList [JInt 255, JInt 0, JInt 0])]),
        (''10'', JDict [(''name'', JStr ''Teal''), (''col'', JList [JInt 0, JInt 128, JInt 128])])]"
      "\<lambda>c. Inr (JStr ''#hex'')"]
  by (simp add: fs_of_def two_colours_def old_colour_json_def converted_def getitem2_def)

text \<open>
  C7 as stated, with the IDs taken as numbers, fails: for the colours 2 and 10 the code
  writes colour 10 first, since the string \<open>"10"\<close> sorts before \<open>"2"\<close>, while ascending
  numeric order puts colour 2 first. (\<open>rgb_to_hex\<close> is the identity here, so \<open>hex\<close> shows
  the \<open>col\<close> it came from; the file holds the keys of each entry sorted.)
\<close>

theorem migrate_colours_order_counterexample:
  "files (snd (migrate_colours ''r'' (\<lambda>c. Inr c) (fs_of [(colours ''r'', Parsed two_colours)]))) (colours ''r'')
     = Some \<lparr>content = Parsed (JList
               [JDict [(''hex'', JList [JInt 0, JInt 128, JInt 128]), (''name'', JStr ''Teal'')],
                JDict [(''hex'', JList [JInt 255, JInt 0, JInt 0]), (''name'', JStr ''Red'')]]),
             readable = True, writable = True\<rparr>
   \<and> convert_colours_spec (\<lambda>c. Inr c) two_colours
     = Inr [JDict [(''name'', JStr ''Red''), (''hex'', JList [JInt 255, JInt 0, JInt 0])],
            JDict [(''name'', JStr ''Teal''), (''hex'', JList [JInt 0, JInt 128, JInt 128])]]"
  by (simp add: migrate_colours_def run_defs two_colours_def old_colour_json_def
        convert_colours_spec_def numeric_id_def decimal_of_str_def strip_def is_space_def)

text \<open>
  C2, at an input where the code departs from it: the preferences file holds a version 5
  document with every default entry and a \<open>tray_icon\<close> of type \<open>builtin\<close> whose \<open>value\<close> is a
  list. The look-up in the table of built-in icons raises \<open>TypeError\<close> (a list is not
  hashable) past the two handlers \<open>except KeyError\<close> that are there to discard invalid
  data: \<open>upgrade_old_pref\<close> raises, having written only its first line of output, and the
  preferences file still holds \<open>config_version\<close> 5. (When the pass returns, the file holds
  version 7: lemma \<open>upgrade_old_pref_success\<close>; from version 6 it returns with the three
  files absent: lemma \<open>upgrade_old_pref_migrates\<close>.)
\<close>

theorem upgrade_old_pref_raises_on_list_icon_value:
  "upgrade_old_pref ''r'' ascii_int Inr Inr (fs_of [(preferences ''r'', Parsed stuck_preferences)])
     = (Inl TypeError, fs_of [(preferences ''r'', Parsed stuck_preferences)] \<lparr>out := [Action]\<rparr>)
   \<and> getitem stuck_preferences ''config_version'' = Inr (JInt 5)"
  by (simp add: upgrade_old_pref_def read_config_version_def step_lt7_def new_tray_value_def
        discard_KeyError_def builtin_icon_def run_defs stuck_preferences_def)

end
